theory Spec2Isabelle
  imports Main "HOL-Library.Word"
begin

unbundle bit_operations_syntax

section \<open>Machine types of \<^verbatim>\<open>mnist.h\<close>\<close>

text \<open>
  The header is modelled on a platform where \<^verbatim>\<open>unsigned int\<close> and \<^verbatim>\<open>int\<close> have 32 bits
  (the loader reads every header field with \<^verbatim>\<open>sizeof(u32)\<close> and the file format has 4-byte
  fields) and where \<^verbatim>\<open>size_t\<close> and pointers have 64 bits. An \<^verbatim>\<open>int\<close> is a 32-bit word
  read through \<open>sint\<close>; the conversions between \<^verbatim>\<open>int\<close> and \<^verbatim>\<open>u32\<close> keep the bits, an
  \<^verbatim>\<open>int\<close> becomes a \<^verbatim>\<open>size_t\<close> or a pointer offset by sign extension (\<open>scast\<close>), a
  \<^verbatim>\<open>u32\<close> becomes a \<^verbatim>\<open>size_t\<close> by zero extension (\<open>ucast\<close>). Signed overflow, undefined
  in C, is modelled as the wrap-around the hardware performs. The byte order of the host is
  a parameter of the model.
\<close>

type_synonym u8 = "8 word"
type_synonym u32 = "32 word"
type_synonym c_int = "32 word"
type_synonym size_t = "64 word"
type_synonym ptr = "64 word"

record mnist_labels =
  count :: c_int
  data :: ptr
  valid :: c_int

record mnist_image =
  rows :: c_int
  columns :: c_int
  data :: ptr

record mnist_images =
  count :: c_int
  rows :: c_int
  columns :: c_int
  data :: ptr
  valid :: c_int

definition MAGIC_NUMBER_LABELS :: u32 where
  "MAGIC_NUMBER_LABELS = 0x00000801"

definition MAGIC_NUMBER_IMAGES :: u32 where
  "MAGIC_NUMBER_IMAGES = 0x00000803"

record mnist_labels_header =
  magic_number :: u32
  number_of_items :: u32

record mnist_images_header =
  magic_number :: u32
  number_of_images :: u32
  number_of_rows :: u32
  number_of_columns :: u32

section \<open>Byte order\<close>

text \<open>
  \<open>le_bytes v\<close> are the four bytes of \<open>v\<close>, least significant first, and \<open>le_word\<close>
  reads them back. An object of type \<^verbatim>\<open>u32\<close> occupies \<open>store_u32 be v\<close> in memory, lowest
  address first, where \<open>be\<close> says that the host is big-endian; \<open>load_u32\<close> is the value
  of four bytes of memory. \<open>be_u32\<close> is the value of a big-endian field of the file.
\<close>

definition le_bytes :: "u32 \<Rightarrow> u8 list" where
  "le_bytes v = [ucast v, ucast (drop_bit 8 v), ucast (drop_bit 16 v), ucast (drop_bit 24 v)]"

fun le_word :: "u8 list \<Rightarrow> u32" where
  "le_word [] = 0"
| "le_word (b # bs) = ucast b OR push_bit 8 (le_word bs)"

definition store_u32 :: "bool \<Rightarrow> u32 \<Rightarrow> u8 list" where
  "store_u32 be v = (if be then rev (le_bytes v) else le_bytes v)"

definition load_u32 :: "bool \<Rightarrow> u8 list \<Rightarrow> u32" where
  "load_u32 be bs = (if be then le_word (rev bs) else le_word bs)"

definition be_u32 :: "u8 \<Rightarrow> u8 \<Rightarrow> u8 \<Rightarrow> u8 \<Rightarrow> u32" where
  "be_u32 b0 b1 b2 b3 =
     push_bit 24 (ucast b0) OR push_bit 16 (ucast b1) OR push_bit 8 (ucast b2) OR ucast b3"

text \<open>
  \<^verbatim>\<open>is_big_endian\<close> stores the \<^verbatim>\<open>int\<close> 1 and looks at the byte at its lowest address.
\<close>

definition is_big_endian :: "bool \<Rightarrow> bool" where
  "is_big_endian be = (let v = 1 in hd (store_u32 be v) = 0)"

text \<open>
  \<^verbatim>\<open>swap_endianness_u32\<close> accumulates in an \<^verbatim>\<open>int\<close>; each \<^verbatim>\<open>|=\<close> is computed on
  \<^verbatim>\<open>unsigned int\<close> and converted back, so the bits are those of the 32-bit word.
\<close>

definition swap_endianness_u32 :: "u32 \<Rightarrow> c_int" where
  "swap_endianness_u32 v =
     (let ret = 0;
          ret = ret OR drop_bit 24 v;
          ret = ret OR drop_bit 8 (v AND 0xFF0000);
          ret = ret OR push_bit 8 (v AND 0xFF00);
          ret = ret OR push_bit 24 v
      in ret)"

section \<open>The C library: files, streams, the allocator\<close>

text \<open>
  The world a loader runs in: the files that can be opened for reading, the open streams
  (each with the bytes not yet read), the heap as a map from addresses to bytes, the live
  blocks of the allocator with their sizes, the answer of the allocator to a request of a
  given size (0 is the null pointer), the byte order of the host, and the trace of the
  library calls made so far.
\<close>

datatype call =
  Fopen string
| Fread nat nat nat
| Fclose nat
| Malloc size_t
| Free ptr

record world =
  files :: "string \<Rightarrow> u8 list option"
  streams :: "nat \<Rightarrow> u8 list option"
  next_stream :: nat
  heap :: "ptr \<Rightarrow> u8 option"
  blocks :: "ptr \<Rightarrow> nat option"
  allocator :: "size_t \<Rightarrow> ptr"
  big_endian_host :: bool
  trace :: "call list"

definition fopen :: "string \<Rightarrow> world \<Rightarrow> nat option \<times> world" where
  "fopen path w =
     (case files w path of
        None \<Rightarrow> (None, w\<lparr>trace := trace w @ [Fopen path]\<rparr>)
      | Some bs \<Rightarrow>
          (Some (next_stream w),
           w\<lparr>streams := (streams w)(next_stream w \<mapsto> bs),
             next_stream := Suc (next_stream w),
             trace := trace w @ [Fopen path]\<rparr>))"

definition fclose :: "nat \<Rightarrow> world \<Rightarrow> world" where
  "fclose fp w = w\<lparr>streams := (streams w)(fp := None), trace := trace w @ [Fclose fp]\<rparr>"

text \<open>
  \<open>fread sz nmemb fp\<close> takes up to \<open>sz * nmemb\<close> bytes from the stream and returns them
  with the number of complete items among them.
\<close>

definition fread :: "nat \<Rightarrow> nat \<Rightarrow> nat \<Rightarrow> world \<Rightarrow> (u8 list \<times> nat) \<times> world" where
  "fread sz nmemb fp w =
     (case streams w fp of
        None \<Rightarrow> (([], 0), w\<lparr>trace := trace w @ [Fread fp sz nmemb]\<rparr>)
      | Some rest \<Rightarrow>
          (let bs = take (sz * nmemb) rest
           in ((bs, length bs div sz),
               w\<lparr>streams := (streams w)(fp \<mapsto> drop (sz * nmemb) rest),
                 trace := trace w @ [Fread fp sz nmemb]\<rparr>)))"

text \<open>Reading one \<^verbatim>\<open>u32\<close> into a local variable: the value and the item count.\<close>

definition fread_u32 :: "nat \<Rightarrow> world \<Rightarrow> (u32 \<times> nat) \<times> world" where
  "fread_u32 fp w =
     (case fread 4 1 fp w of
        ((bs, n), w') \<Rightarrow> ((load_u32 (big_endian_host w) bs, n), w'))"

definition store_bytes :: "ptr \<Rightarrow> u8 list \<Rightarrow> (ptr \<Rightarrow> u8 option) \<Rightarrow> (ptr \<Rightarrow> u8 option)" where
  "store_bytes p bs h = (\<lambda>a. if unat (a - p) < length bs then Some (bs ! unat (a - p)) else h a)"

text \<open>Reading bytes into a buffer of the heap: the item count.\<close>

definition fread_buf :: "ptr \<Rightarrow> nat \<Rightarrow> nat \<Rightarrow> nat \<Rightarrow> world \<Rightarrow> nat \<times> world" where
  "fread_buf p sz nmemb fp w =
     (case fread sz nmemb fp w of
        ((bs, n), w') \<Rightarrow> (n, w'\<lparr>heap := store_bytes p bs (heap w')\<rparr>))"

definition malloc :: "size_t \<Rightarrow> world \<Rightarrow> ptr \<times> world" where
  "malloc n w =
     (let p = allocator w n
      in (p, w\<lparr>blocks := (if p = 0 then blocks w else (blocks w)(p \<mapsto> unat n)),
               trace := trace w @ [Malloc n]\<rparr>))"

definition free :: "ptr \<Rightarrow> world \<Rightarrow> world" where
  "free p w =
     (case blocks w p of
        None \<Rightarrow> w\<lparr>trace := trace w @ [Free p]\<rparr>
      | Some n \<Rightarrow>
          w\<lparr>heap := (\<lambda>a. if unat (a - p) < n then None else heap w a),
            blocks := (blocks w)(p := None),
            trace := trace w @ [Free p]\<rparr>)"

text \<open>The bytes of the heap at \<open>p\<close>, \<open>p + 1\<close>, ..., \<open>p + n - 1\<close>.\<close>

definition load_bytes :: "(ptr \<Rightarrow> u8 option) \<Rightarrow> ptr \<Rightarrow> nat \<Rightarrow> u8 option list" where
  "load_bytes h p n = map (\<lambda>i. h (p + of_nat i)) [0..<n]"

section \<open>The loaders\<close>

definition labels_zero :: mnist_labels where
  "labels_zero = \<lparr>mnist_labels.count = 0, mnist_labels.data = 0, mnist_labels.valid = 0\<rparr>"

definition images_zero :: mnist_images where
  "images_zero = \<lparr>mnist_images.count = 0, mnist_images.rows = 0, mnist_images.columns = 0,
     mnist_images.data = 0, mnist_images.valid = 0\<rparr>"

text \<open>A null \<^verbatim>\<open>filepath\<close> is \<open>None\<close>.\<close>

definition mnist_load_labels :: "string option \<Rightarrow> world \<Rightarrow> mnist_labels \<times> world" where
  "mnist_load_labels filepath w =
     (let labels = labels_zero in
      case filepath of
        None \<Rightarrow> (labels, w)
      | Some path \<Rightarrow>
      (case fopen path w of
        (None, w1) \<Rightarrow> (labels, w1)
      | (Some fp, w1) \<Rightarrow>
      (case fread_u32 fp w1 of ((magic0, n1), w2) \<Rightarrow>
        if n1 = 0 then (labels, fclose fp w2) else
      (case fread_u32 fp w2 of ((items0, n2), w3) \<Rightarrow>
        if n2 = 0 then (labels, fclose fp w3) else
        let header = \<lparr>mnist_labels_header.magic_number = magic0, number_of_items = items0\<rparr>;
            header =
              (if \<not> is_big_endian (big_endian_host w3)
               then \<lparr>mnist_labels_header.magic_number =
                       swap_endianness_u32 (mnist_labels_header.magic_number header),
                     number_of_items = swap_endianness_u32 (number_of_items header)\<rparr>
               else header)
        in
        if mnist_labels_header.magic_number header \<noteq> MAGIC_NUMBER_LABELS
        then (labels, fclose fp w3) else
      (case malloc (1 * ucast (number_of_items header)) w3 of (label_data, w4) \<Rightarrow>
        if label_data = 0 then (labels, w4) else
      (case fread_buf label_data 1 (unat (number_of_items header)) fp w4 of (n, w5) \<Rightarrow>
        if n \<noteq> unat (number_of_items header)
        then (labels, free label_data (fclose fp w5))
        else
          (\<lparr>mnist_labels.count = number_of_items header,
            mnist_labels.data = label_data,
            mnist_labels.valid = 1\<rparr>,
           fclose fp w5)))))))"

definition mnist_load_images :: "string option \<Rightarrow> world \<Rightarrow> mnist_images \<times> world" where
  "mnist_load_images filepath w =
     (let images = images_zero in
      case filepath of
        None \<Rightarrow> (images, w)
      | Some path \<Rightarrow>
      (case fopen path w of
        (None, w1) \<Rightarrow> (images, w1)
      | (Some fp, w1) \<Rightarrow>
      (case fread_u32 fp w1 of ((magic0, n1), w2) \<Rightarrow>
        if n1 = 0 then (images, fclose fp w2) else
      (case fread_u32 fp w2 of ((images0, n2), w3) \<Rightarrow>
        if n2 = 0 then (images, fclose fp w3) else
      (case fread_u32 fp w3 of ((rows0, n3), w4) \<Rightarrow>
        if n3 = 0 then (images, fclose fp w4) else
      (case fread_u32 fp w4 of ((columns0, n4), w5) \<Rightarrow>
        if n4 = 0 then (images, fclose fp w5) else
        let header = \<lparr>mnist_images_header.magic_number = magic0, number_of_images = images0,
                       number_of_rows = rows0, number_of_columns = columns0\<rparr>;
            header =
              (if \<not> is_big_endian (big_endian_host w5)
               then \<lparr>mnist_images_header.magic_number =
                       swap_endianness_u32 (mnist_images_header.magic_number header),
                     number_of_images = swap_endianness_u32 (number_of_images header),
                     number_of_rows = swap_endianness_u32 (number_of_rows header),
                     number_of_columns = swap_endianness_u32 (number_of_columns header)\<rparr>
               else header)
        in
        if mnist_images_header.magic_number header \<noteq> MAGIC_NUMBER_IMAGES
        then (images, fclose fp w5) else
        let size = (number_of_images header * number_of_rows header * number_of_columns header
                      :: c_int)
        in
      (case malloc (1 * scast size) w5 of (image_data, w6) \<Rightarrow>
        if image_data = 0 then (images, w6) else
      (case fread_buf image_data 1 (unat (scast size :: size_t)) fp w6 of (n, w7) \<Rightarrow>
        if n \<noteq> unat (scast size :: size_t)
        then (images, free image_data (fclose fp w7))
        else
          (\<lparr>mnist_images.count = number_of_images header,
            mnist_images.rows = number_of_rows header,
            mnist_images.columns = number_of_columns header,
            mnist_images.data = image_data,
            mnist_images.valid = 1\<rparr>,
           fclose fp w7)))))))))"

section \<open>The accessors\<close>

text \<open>
  \<^verbatim>\<open>labels.data[index]\<close> reads the heap at \<^verbatim>\<open>data + index\<close>; \<open>None\<close> is a read of an
  address that holds no byte. \<^verbatim>\<open>mnist_get_image\<close> reads nothing: it computes an address.
\<close>

definition mnist_get_label :: "(ptr \<Rightarrow> u8 option) \<Rightarrow> mnist_labels \<Rightarrow> c_int \<Rightarrow> u8 option" where
  "mnist_get_label h labels index = h (mnist_labels.data labels + scast index)"

definition mnist_get_image :: "mnist_images \<Rightarrow> c_int \<Rightarrow> mnist_image" where
  "mnist_get_image images index =
     \<lparr>mnist_image.rows = mnist_images.rows images,
      mnist_image.columns = mnist_images.columns images,
      mnist_image.data = mnist_images.data images +
        scast (mnist_images.rows images * mnist_images.columns images * index)\<rparr>"

section \<open>Printing\<close>

text \<open>
  The two loops of \<^verbatim>\<open>mnist_print_image\<close>, with the text written so far as the state.
  The counters are C \<^verbatim>\<open>int\<close>s compared as signed numbers.
\<close>

function print_cols ::
  "(ptr \<Rightarrow> u8 option) \<Rightarrow> mnist_image \<Rightarrow> u8 \<Rightarrow> c_int \<Rightarrow> c_int \<Rightarrow> string \<Rightarrow> string option" where
  "print_cols h img threshold row col out =
     (if sint col < sint (mnist_image.columns img) then
        (case h (mnist_image.data img + scast (col + row * mnist_image.columns img)) of
           None \<Rightarrow> None
         | Some v \<Rightarrow>
             print_cols h img threshold row (col + 1)
               (out @ (if threshold \<le> v then ''##'' else ''  '')))
      else Some out)"
  by pat_completeness auto
termination
  apply (relation "measure (\<lambda>(h, img, threshold, row, col, out).
        nat (sint (mnist_image.columns img) - sint col))")
   apply simp
  subgoal for h img threshold row col out v
    using sint_lt [of "mnist_image.columns img"] sint_ge [of col]
    by (simp add: sint_word_ariths signed_take_bit_int_eq_self)
  done

function print_rows ::
  "(ptr \<Rightarrow> u8 option) \<Rightarrow> mnist_image \<Rightarrow> u8 \<Rightarrow> c_int \<Rightarrow> string \<Rightarrow> string option" where
  "print_rows h img threshold row out =
     (if sint row < sint (mnist_image.rows img) then
        (case print_cols h img threshold row 0 out of
           None \<Rightarrow> None
         | Some out' \<Rightarrow> print_rows h img threshold (row + 1) (out' @ [CHR 0x0A]))
      else Some out)"
  by pat_completeness auto
termination
  apply (relation "measure (\<lambda>(h, img, threshold, row, out).
        nat (sint (mnist_image.rows img) - sint row))")
   apply simp
  subgoal for h img threshold row out out'
    using sint_lt [of "mnist_image.rows img"] sint_ge [of row]
    by (simp add: sint_word_ariths signed_take_bit_int_eq_self)
  done

definition mnist_print_image ::
  "(ptr \<Rightarrow> u8 option) \<Rightarrow> mnist_image \<Rightarrow> u8 \<Rightarrow> string \<Rightarrow> string option" where
  "mnist_print_image h img threshold out =
     (case print_rows h img threshold 0 out of
        None \<Rightarrow> None
      | Some out' \<Rightarrow> Some (out' @ [CHR 0x0A]))"

section \<open>The file format and the data model\<close>

text \<open>
  A header field is stored most significant byte first. A label file is the magic number,
  the number of items and the labels; an image file is the magic number, the three
  dimensions and the pixels.
\<close>

definition be_bytes :: "u32 \<Rightarrow> u8 list" where
  "be_bytes v = rev (le_bytes v)"

definition label_file :: "u32 \<Rightarrow> u8 list \<Rightarrow> u8 list" where
  "label_file n payload = be_bytes MAGIC_NUMBER_LABELS @ be_bytes n @ payload"

definition image_file :: "u32 \<Rightarrow> u32 \<Rightarrow> u32 \<Rightarrow> u8 list \<Rightarrow> u8 list" where
  "image_file n r c payload =
     be_bytes MAGIC_NUMBER_IMAGES @ be_bytes n @ be_bytes r @ be_bytes c @ payload"

text \<open>
  \<open>holds h p bs\<close>: the heap has the bytes \<open>bs\<close> at the addresses from \<open>p\<close> on.
\<close>

definition holds :: "(ptr \<Rightarrow> u8 option) \<Rightarrow> ptr \<Rightarrow> u8 list \<Rightarrow> bool" where
  "holds h p bs = (load_bytes h p (length bs) = map Some bs)"

text \<open>
  The data model: a valid label set owns a buffer of \<open>count\<close> bytes, a valid image set a
  buffer of \<open>count * rows * columns\<close> bytes, the three being non-negative \<^verbatim>\<open>int\<close>s; the
  buffer is what the heap has at \<open>data\<close>. The size of an image buffer is an \<^verbatim>\<open>int\<close> in
  the loader, so it is below \<open>2 ^ 31\<close>.
\<close>

definition labels_ok :: "(ptr \<Rightarrow> u8 option) \<Rightarrow> mnist_labels \<Rightarrow> u8 list \<Rightarrow> bool" where
  "labels_ok h labels buf =
     (mnist_labels.valid labels \<noteq> 0
      \<and> int (length buf) = sint (mnist_labels.count labels)
      \<and> holds h (mnist_labels.data labels) buf)"

definition images_ok :: "(ptr \<Rightarrow> u8 option) \<Rightarrow> mnist_images \<Rightarrow> u8 list \<Rightarrow> bool" where
  "images_ok h images buf =
     (mnist_images.valid images \<noteq> 0
      \<and> 0 \<le> sint (mnist_images.count images)
      \<and> 0 \<le> sint (mnist_images.rows images)
      \<and> 0 \<le> sint (mnist_images.columns images)
      \<and> int (length buf) =
          sint (mnist_images.count images) * sint (mnist_images.rows images)
            * sint (mnist_images.columns images)
      \<and> length buf < 2 ^ 31
      \<and> holds h (mnist_images.data images) buf)"

text \<open>
  The text of a grid: each pixel is two characters, \<open>##\<close> when its value is at least the
  threshold and two blanks otherwise; each row ends with a newline and the grid with one
  more. \<open>grid_text r c px threshold\<close> is the text of the \<open>r\<close> by \<open>c\<close> grid of the pixels
  \<open>px\<close>, row by row. A view is \<open>rows * columns\<close> bytes of the heap at its data pointer.
\<close>

definition glyph :: "u8 \<Rightarrow> u8 \<Rightarrow> string" where
  "glyph threshold v = (if threshold \<le> v then ''##'' else ''  '')"

definition grid_text :: "nat \<Rightarrow> nat \<Rightarrow> u8 list \<Rightarrow> u8 \<Rightarrow> string" where
  "grid_text r c px threshold =
     concat (map (\<lambda>i. concat (map (glyph threshold) (take c (drop (i * c) px))) @ [CHR 0x0A])
               [0..<r])
     @ [CHR 0x0A]"

definition view_ok :: "(ptr \<Rightarrow> u8 option) \<Rightarrow> mnist_image \<Rightarrow> u8 list \<Rightarrow> bool" where
  "view_ok h img px =
     (length px = nat (sint (mnist_image.rows img)) * nat (sint (mnist_image.columns img))
      \<and> length px < 2 ^ 31
      \<and> holds h (mnist_image.data img) px)"

text \<open>
  \<open>after_header w path k\<close> is the world \<open>w\<close> after a loader has opened \<open>path\<close>,
  made \<open>k\<close> reads of one header field and closed the stream: the heap and the blocks of the
  allocator are those of \<open>w\<close>.
\<close>

definition after_header :: "world \<Rightarrow> string \<Rightarrow> nat \<Rightarrow> world" where
  "after_header w path k =
     w\<lparr>streams := (streams w)(next_stream w := None),
       next_stream := Suc (next_stream w),
       trace := trace w @ Fopen path # replicate k (Fread (next_stream w) 4 1)
                  @ [Fclose (next_stream w)]\<rparr>"

text \<open>
  A little-endian host whose only file \<open>''f''\<close> has the bytes \<open>bs\<close>, with no open stream
  and an empty heap, whose allocator answers \<open>p\<close> to every request.
\<close>

definition one_file_world :: "u8 list \<Rightarrow> ptr \<Rightarrow> world" where
  "one_file_world bs p =
     \<lparr>files = (\<lambda>name. if name = ''f'' then Some bs else None),
      streams = (\<lambda>_. None),
      next_stream = 0,
      heap = (\<lambda>_. None),
      blocks = (\<lambda>_. None),
      allocator = (\<lambda>_. p),
      big_endian_host = False,
      trace = []\<rparr>"

section \<open>Byte order: the swap reverses the bytes\<close>

lemma bit_0xFF0000: "bit (0xFF0000 :: int) n = (16 \<le> n \<and> n < 24)"
proof -
  have h: "(0xFF0000 :: int) = push_bit 16 (mask 8)" by (simp add: mask_eq_exp_minus_1)
  show ?thesis unfolding h by (auto simp add: bit_simps)
qed

lemma bit_0xFF00: "bit (0xFF00 :: int) n = (8 \<le> n \<and> n < 16)"
proof -
  have h: "(0xFF00 :: int) = push_bit 8 (mask 8)" by (simp add: mask_eq_exp_minus_1)
  show ?thesis unfolding h by (auto simp add: bit_simps)
qed

lemma bit_swap_endianness_u32:
  "bit (swap_endianness_u32 v) n =
     (n < 32 \<and> (if n < 8 then bit v (n + 24) else if n < 16 then bit v (n + 8)
        else if n < 24 then bit v (n - 8) else bit v (n - 24)))"
  by (auto simp add: swap_endianness_u32_def Let_def bit_simps bit_0xFF0000 bit_0xFF00 add.commute
      dest: bit_imp_le_length)

lemma swap_endianness_u32_twice: "swap_endianness_u32 (swap_endianness_u32 v) = v"
  by (rule bit_word_eqI) (auto simp add: bit_swap_endianness_u32)

lemma le_bytes_swap: "le_bytes (swap_endianness_u32 v) = rev (le_bytes v)"
  unfolding le_bytes_def
  apply simp
  apply (intro conjI; rule bit_word_eqI)
     apply (auto simp add: bit_simps bit_swap_endianness_u32 add.commute)
  done

lemma bit_be_u32:
  "bit (be_u32 b0 b1 b2 b3) n =
     (if n < 8 then bit b3 n else if n < 16 then bit b2 (n - 8)
      else if n < 24 then bit b1 (n - 16) else bit b0 (n - 24))"
  by (auto simp add: be_u32_def bit_simps dest: bit_imp_le_length)

lemma bit_le_word4:
  "bit (le_word [b0, b1, b2, b3]) n =
     (if n < 8 then bit b0 n else if n < 16 then bit b1 (n - 8)
      else if n < 24 then bit b2 (n - 16) else bit b3 (n - 24))"
  by (auto simp add: bit_simps dest: bit_imp_le_length)

lemma le_word4: "le_word [b0, b1, b2, b3] = be_u32 b3 b2 b1 b0"
  by (rule bit_word_eqI) (simp only: bit_be_u32 bit_le_word4)

lemma swap_be_u32: "swap_endianness_u32 (be_u32 b0 b1 b2 b3) = be_u32 b3 b2 b1 b0"
  by (rule bit_word_eqI)
    (auto simp add: bit_swap_endianness_u32 bit_be_u32 dest: bit_imp_le_length)

lemma is_big_endian_host: "is_big_endian be = be"
  by (simp add: is_big_endian_def store_u32_def le_bytes_def)

lemma le_word_le_bytes: "le_word (le_bytes v) = v"
proof (rule bit_word_eqI)
  fix n assume "n < LENGTH(32)"
  then have n: "n < 32" by simp
  consider "n < 8" | "8 \<le> n" "n < 16" | "16 \<le> n" "n < 24" | "24 \<le> n" "n < 32"
    using n by linarith
  then show "bit (le_word (le_bytes v)) n = bit v n"
    by cases (auto simp add: le_bytes_def bit_le_word4 bit_simps)
qed

text \<open>
  What both loaders do to a header field after reading it: on either host the result is
  the big-endian value of the four bytes of the file.
\<close>

lemma normalize_field:
  "(if \<not> is_big_endian be then swap_endianness_u32 (load_u32 be [b0, b1, b2, b3])
    else load_u32 be [b0, b1, b2, b3]) = be_u32 b0 b1 b2 b3"
  by (simp add: is_big_endian_host load_u32_def le_word4 swap_be_u32 del: le_word.simps)

lemma be_u32_be_bytes:
  "be_bytes v = [b0, b1, b2, b3] \<Longrightarrow> be_u32 b0 b1 b2 b3 = v"
proof -
  assume "be_bytes v = [b0, b1, b2, b3]"
  then have "rev (rev (le_bytes v)) = rev [b0, b1, b2, b3]"
    by (simp only: be_bytes_def)
  then have "le_bytes v = [b3, b2, b1, b0]" by simp
  then have "le_word [b3, b2, b1, b0] = v" using le_word_le_bytes [of v] by (simp only:)
  then show ?thesis by (simp only: le_word4)
qed

text \<open>
  Claim C7. The swap \<^verbatim>\<open>swap_endianness_u32\<close> reverses the four bytes of its argument and
  is an involution; on a little-endian host, swapping the value read from four bytes of
  the file gives their big-endian value, and on a big-endian host the value read is
  already that value, \<^verbatim>\<open>is_big_endian\<close> telling the two hosts apart.
\<close>

theorem swap_endianness_u32_reverses_bytes:
  "le_bytes (swap_endianness_u32 v) = rev (le_bytes v)
   \<and> swap_endianness_u32 (swap_endianness_u32 v) = v
   \<and> \<not> is_big_endian False
   \<and> swap_endianness_u32 (load_u32 False [b0, b1, b2, b3]) = be_u32 b0 b1 b2 b3
   \<and> is_big_endian True
   \<and> load_u32 True [b0, b1, b2, b3] = be_u32 b0 b1 b2 b3"
  using normalize_field [of False b0 b1 b2 b3] normalize_field [of True b0 b1 b2 b3]
  by (simp add: le_bytes_swap swap_endianness_u32_twice is_big_endian_host del: le_word.simps)

text \<open>
  Claim C10. With a null \<^verbatim>\<open>filepath\<close> both loaders return the all-zero structure
  (count 0, null buffer, valid 0) and leave the world as it was: no file is opened, no
  library call is made.
\<close>

theorem load_null_path:
  "mnist_load_labels None w =
     (\<lparr>mnist_labels.count = 0, mnist_labels.data = 0, mnist_labels.valid = 0\<rparr>, w)
   \<and> mnist_load_images None w =
     (\<lparr>mnist_images.count = 0, mnist_images.rows = 0, mnist_images.columns = 0,
       mnist_images.data = 0, mnist_images.valid = 0\<rparr>, w)"
  by (simp add: mnist_load_labels_def mnist_load_images_def labels_zero_def images_zero_def)

section \<open>Signed and unsigned readings of a 32-bit word\<close>

lemma sint_in_range:
  "- (2 ^ 31) \<le> k \<Longrightarrow> k < 2 ^ 31 \<Longrightarrow> sint (word_of_int k :: c_int) = k"
  by (simp add: signed_of_int signed_take_bit_int_eq_self)

lemma sint_of_nat_small: "n < 2 ^ 31 \<Longrightarrow> sint (of_nat n :: c_int) = int n"
proof -
  assume "n < 2 ^ 31"
  then have "int n < 2 ^ 31" by (simp only: of_nat_less_numeral_power_cancel_iff)
  moreover have "- (2 ^ 31) \<le> int n" by (rule order_trans [where y = 0]) simp_all
  ultimately have "sint (word_of_int (int n) :: c_int) = int n" by (intro sint_in_range)
  then show ?thesis by simp
qed

lemma sint_small: "unat (x :: c_int) < 2 ^ 31 \<Longrightarrow> sint x = uint x"
proof -
  assume "unat x < 2 ^ 31"
  then have "sint (of_nat (unat x) :: c_int) = int (unat x)" by (rule sint_of_nat_small)
  then show ?thesis by simp
qed


section \<open>What the library calls return\<close>

lemma load_u32_swapped:
  "swap_endianness_u32 (load_u32 False [b0, b1, b2, b3]) = be_u32 b0 b1 b2 b3"
  "load_u32 True [b0, b1, b2, b3] = be_u32 b0 b1 b2 b3"
  using normalize_field [of False b0 b1 b2 b3] normalize_field [of True b0 b1 b2 b3]
  by (simp_all add: is_big_endian_host del: le_word.simps)

lemma unat_ucast_u32: "unat (ucast (x :: u32) :: size_t) = unat x"
proof -
  have "unat x < 2 ^ 32" using unsigned_less [of x, where 'a = nat] by simp
  then have "unat x < 2 ^ 64" by (rule less_le_trans) simp
  then show ?thesis by (simp add: unsigned_ucast_eq take_bit_nat_eq_self)
qed

lemma fread_u32_ok:
  "streams w fp = Some (b0 # b1 # b2 # b3 # rest) \<Longrightarrow>
   fread_u32 fp w =
     ((load_u32 (big_endian_host w) [b0, b1, b2, b3], Suc 0),
      w\<lparr>streams := (streams w)(fp \<mapsto> rest), trace := trace w @ [Fread fp 4 (Suc 0)]\<rparr>)"
  by (simp add: fread_u32_def fread_def)

lemma fread_u32_short:
  "streams w fp = Some bs \<Longrightarrow> length bs < 4 \<Longrightarrow>
   fread_u32 fp w =
     ((load_u32 (big_endian_host w) bs, 0),
      w\<lparr>streams := (streams w)(fp \<mapsto> []), trace := trace w @ [Fread fp 4 (Suc 0)]\<rparr>)"
  by (simp add: fread_u32_def fread_def)

lemma fopen_ok:
  "files w path = Some bs \<Longrightarrow>
   fopen path w =
     (Some (next_stream w),
      w\<lparr>streams := (streams w)(next_stream w \<mapsto> bs),
        next_stream := Suc (next_stream w),
        trace := trace w @ [Fopen path]\<rparr>)"
  by (simp add: fopen_def)

lemma fread_buf_ok:
  "streams w fp = Some rest \<Longrightarrow> n \<le> length rest \<Longrightarrow>
   fread_buf p (Suc 0) n fp w =
     (n, w\<lparr>streams := (streams w)(fp \<mapsto> drop n rest),
          trace := trace w @ [Fread fp (Suc 0) n],
          heap := store_bytes p (take n rest) (heap w)\<rparr>)"
  by (simp add: fread_buf_def fread_def)

lemma fread_buf_short:
  "streams w fp = Some rest \<Longrightarrow> length rest < n \<Longrightarrow>
   fread_buf p (Suc 0) n fp w =
     (length rest, w\<lparr>streams := (streams w)(fp \<mapsto> []),
          trace := trace w @ [Fread fp (Suc 0) n],
          heap := store_bytes p rest (heap w)\<rparr>)"
  by (simp add: fread_buf_def fread_def)


lemma list4: "4 \<le> length xs \<Longrightarrow> \<exists>a b c d ys. xs = a # b # c # d # ys"
  by (auto simp add: eval_nat_numeral Suc_le_length_iff)

lemma replicate_small:
  "replicate 2 x = [x, x]" "replicate 3 x = [x, x, x]" "replicate 4 x = [x, x, x, x]"
  by (simp_all add: eval_nat_numeral)


lemma load_labels_mismatch_bytes:
  assumes "files w path = Some (m0 # m1 # m2 # m3 # rest)"
    and "be_u32 m0 m1 m2 m3 \<noteq> MAGIC_NUMBER_LABELS"
  shows "mnist_load_labels (Some path) w = (labels_zero, after_header w path 2)"
proof (cases "length rest < 4")
  case True
  with assms show ?thesis 
    by (simp add: mnist_load_labels_def fopen_ok fread_u32_ok fread_u32_short Let_def fclose_def after_header_def replicate_small)
next
  case False
  then obtain n0 n1 n2 n3 rest' where "rest = n0 # n1 # n2 # n3 # rest'"
    using list4 [of rest] by auto
  with assms show ?thesis
    by (simp add: mnist_load_labels_def fopen_ok fread_u32_ok Let_def is_big_endian_host load_u32_swapped
       fclose_def after_header_def replicate_small)
qed

lemma load_images_bytes:
  assumes "files w path = Some (m0 # m1 # m2 # m3 # n0 # n1 # n2 # n3 # r0 # r1 # r2 # r3 # c0 # c1 # c2 # c3 # payload)"
    and "be_u32 m0 m1 m2 m3 = MAGIC_NUMBER_IMAGES"
    and "sz = scast (be_u32 n0 n1 n2 n3 * be_u32 r0 r1 r2 r3 * be_u32 c0 c1 c2 c3)"
    and "allocator w sz \<noteq> 0"
    and "unat sz \<le> length payload"
  shows "mnist_load_images (Some path) w =
     (\<lparr>mnist_images.count = be_u32 n0 n1 n2 n3,
       mnist_images.rows = be_u32 r0 r1 r2 r3,
       mnist_images.columns = be_u32 c0 c1 c2 c3,
       mnist_images.data = allocator w sz,
       mnist_images.valid = 1\<rparr>,
      w\<lparr>streams := (streams w)(next_stream w := None),
        next_stream := Suc (next_stream w),
        heap := store_bytes (allocator w sz) (take (unat sz) payload) (heap w),
        blocks := (blocks w)(allocator w sz \<mapsto> unat sz),
        trace := trace w @ [Fopen path, Fread (next_stream w) 4 1, Fread (next_stream w) 4 1,
                   Fread (next_stream w) 4 1, Fread (next_stream w) 4 1,
                   Malloc sz, Fread (next_stream w) 1 (unat sz), Fclose (next_stream w)]\<rparr>)"
  using assms
  by (simp add: mnist_load_images_def fopen_ok fread_u32_ok fread_buf_ok Let_def is_big_endian_host load_u32_swapped
      malloc_def fclose_def)



lemma load_images_mismatch_bytes:
  assumes "files w path = Some (m0 # m1 # m2 # m3 # rest)"
    and "be_u32 m0 m1 m2 m3 \<noteq> MAGIC_NUMBER_IMAGES"
  shows "mnist_load_images (Some path) w =
           (images_zero, after_header w path (min 4 (length rest div 4 + 2)))"
proof -
  consider "length rest < 4" | "4 \<le> length rest" "length rest < 8"
    | "8 \<le> length rest" "length rest < 12" | "12 \<le> length rest"
    by linarith
  then show ?thesis
  proof cases
    case 1
    then have "min 4 (length rest div 4 + 2) = 2" by simp
    with 1 assms show ?thesis
      by (simp add: mnist_load_images_def fopen_ok fread_u32_ok fread_u32_short Let_def
          fclose_def after_header_def replicate_small)
  next
    case 2
    then obtain n0 n1 n2 n3 r1 where r: "rest = n0 # n1 # n2 # n3 # r1"
      using list4 [of rest] by auto
    with 2 have "length r1 < 4" "min 4 (length rest div 4 + 2) = 3" by simp_all
    with assms r show ?thesis
      by (simp add: mnist_load_images_def fopen_ok fread_u32_ok fread_u32_short Let_def
          fclose_def after_header_def replicate_small)
  next
    case 3
    then obtain n0 n1 n2 n3 r1 where r: "rest = n0 # n1 # n2 # n3 # r1"
      using list4 [of rest] by auto
    with 3 have "4 \<le> length r1" by simp
    then obtain a0 a1 a2 a3 r2 where r1: "r1 = a0 # a1 # a2 # a3 # r2"
      using list4 [of r1] by auto
    with 3 r have "length r2 < 4" "min 4 (length rest div 4 + 2) = 4" by simp_all
    with assms r r1 show ?thesis
      by (simp add: mnist_load_images_def fopen_ok fread_u32_ok fread_u32_short Let_def
          fclose_def after_header_def replicate_small)
  next
    case 4
    then obtain n0 n1 n2 n3 r1 where r: "rest = n0 # n1 # n2 # n3 # r1"
      using list4 [of rest] by auto
    with 4 have "4 \<le> length r1" by simp
    then obtain a0 a1 a2 a3 r2 where r1: "r1 = a0 # a1 # a2 # a3 # r2"
      using list4 [of r1] by auto
    with 4 r have "4 \<le> length r2" by simp
    then obtain c0 c1 c2 c3 r3 where r2: "r2 = c0 # c1 # c2 # c3 # r3"
      using list4 [of r2] by auto
    from 4 have "min 4 (length rest div 4 + 2) = 4" by simp
    with assms r r1 r2 show ?thesis
      by (simp add: mnist_load_images_def fopen_ok fread_u32_ok Let_def is_big_endian_host
          load_u32_swapped fclose_def after_header_def replicate_small)
  qed
qed

lemma unat_of_nat64: "i < 2 ^ 64 \<Longrightarrow> unat (of_nat i :: ptr) = i"
  by (simp add: unat_of_nat)

lemma store_bytes_at:
  "i < length bs \<Longrightarrow> length bs \<le> 2 ^ 64 \<Longrightarrow> store_bytes p bs h (p + of_nat i) = Some (bs ! i)"
  by (simp add: store_bytes_def unat_of_nat)

lemma holds_store_bytes:
  "length bs \<le> 2 ^ 64 \<Longrightarrow> holds (store_bytes p bs h) p bs"
  unfolding holds_def load_bytes_def
  by (rule nth_equalityI) (simp_all add: store_bytes_at)

lemma holds_nth:
  "holds h p bs \<Longrightarrow> i < length bs \<Longrightarrow> h (p + of_nat i) = Some (bs ! i)"
proof -
  assume a: "holds h p bs" and i: "i < length bs"
  from a have "load_bytes h p (length bs) ! i = map Some bs ! i" by (simp add: holds_def)
  with i show ?thesis by (simp add: load_bytes_def)
qed

lemma be_bytes_explicit:
  "be_bytes v = [ucast (drop_bit 24 v), ucast (drop_bit 16 v), ucast (drop_bit 8 v), ucast v]"
  by (simp add: be_bytes_def le_bytes_def)

lemma be_u32_of_be_bytes:
  "be_u32 (ucast (drop_bit 24 v)) (ucast (drop_bit 16 v)) (ucast (drop_bit 8 v)) (ucast v) = v"
  by (rule be_u32_be_bytes) (rule be_bytes_explicit)






lemma load_images_file:
  assumes "files w path = Some (image_file n r c payload)"
    and "sz = scast (n * r * c)"
    and "allocator w sz \<noteq> 0"
    and "unat sz \<le> length payload"
  shows "mnist_load_images (Some path) w =
     (\<lparr>mnist_images.count = n, mnist_images.rows = r, mnist_images.columns = c,
       mnist_images.data = allocator w sz, mnist_images.valid = 1\<rparr>,
      w\<lparr>streams := (streams w)(next_stream w := None),
        next_stream := Suc (next_stream w),
        heap := store_bytes (allocator w sz) (take (unat sz) payload) (heap w),
        blocks := (blocks w)(allocator w sz \<mapsto> unat sz),
        trace := trace w @ [Fopen path, Fread (next_stream w) 4 1, Fread (next_stream w) 4 1,
                   Fread (next_stream w) 4 1, Fread (next_stream w) 4 1,
                   Malloc sz, Fread (next_stream w) 1 (unat sz), Fclose (next_stream w)]\<rparr>)"
  using assms
    load_images_bytes [of w path _ _ _ _
      "ucast (drop_bit 24 n)" "ucast (drop_bit 16 n)" "ucast (drop_bit 8 n)" "ucast n"
      "ucast (drop_bit 24 r)" "ucast (drop_bit 16 r)" "ucast (drop_bit 8 r)" "ucast r"
      "ucast (drop_bit 24 c)" "ucast (drop_bit 16 c)" "ucast (drop_bit 8 c)" "ucast c"
      payload sz]
  by (simp add: image_file_def be_bytes_explicit be_u32_of_be_bytes)

lemma load_labels_alloc_fails:
  assumes "files w path = Some (label_file n payload)"
    and "allocator w (ucast n) = 0"
  shows "mnist_load_labels (Some path) w =
     (labels_zero,
      w\<lparr>streams := (streams w)(next_stream w \<mapsto> payload),
        next_stream := Suc (next_stream w),
        trace := trace w @ [Fopen path, Fread (next_stream w) 4 1, Fread (next_stream w) 4 1,
                   Malloc (ucast n)]\<rparr>)"
  using assms be_u32_of_be_bytes [of n] be_u32_of_be_bytes [of MAGIC_NUMBER_LABELS]
  by (simp add: label_file_def be_bytes_explicit mnist_load_labels_def fopen_ok fread_u32_ok
      Let_def is_big_endian_host load_u32_swapped malloc_def)

lemma load_images_alloc_fails:
  assumes "files w path = Some (image_file n r c payload)"
    and "allocator w (scast (n * r * c)) = 0"
  shows "mnist_load_images (Some path) w =
     (images_zero,
      w\<lparr>streams := (streams w)(next_stream w \<mapsto> payload),
        next_stream := Suc (next_stream w),
        trace := trace w @ [Fopen path, Fread (next_stream w) 4 1, Fread (next_stream w) 4 1,
                   Fread (next_stream w) 4 1, Fread (next_stream w) 4 1,
                   Malloc (scast (n * r * c))]\<rparr>)"
  using assms be_u32_of_be_bytes [of n] be_u32_of_be_bytes [of r] be_u32_of_be_bytes [of c]
    be_u32_of_be_bytes [of MAGIC_NUMBER_IMAGES]
  by (simp add: image_file_def be_bytes_explicit mnist_load_images_def fopen_ok fread_u32_ok
      Let_def is_big_endian_host load_u32_swapped malloc_def)

text \<open>
  Claim C3. On the exit path taken when \<^verbatim>\<open>malloc\<close> returns the null pointer the loaders
  return at once, without the \<^verbatim>\<open>fclose\<close> that the other exit paths make. For a label
  file of two labels and an image file of two 2 by 2 images on a host whose allocator
  refuses the request, each loader returns the all-zero structure while its stream is still
  open, holding the unread payload, and no \<^verbatim>\<open>fclose\<close> is in the trace.
\<close>

theorem load_alloc_failure_leaves_stream_open:
  "(case mnist_load_labels (Some ''f'') (one_file_world (label_file 2 [7, 3]) 0) of
      (labels, w') \<Rightarrow>
        labels = labels_zero
        \<and> streams w' 0 = Some [7, 3]
        \<and> trace w' = [Fopen ''f'', Fread 0 4 1, Fread 0 4 1, Malloc 2])
   \<and> (case mnist_load_images (Some ''f'')
              (one_file_world (image_file 2 2 2 [1, 2, 3, 4, 5, 6, 7, 8]) 0) of
      (images, w') \<Rightarrow>
        images = images_zero
        \<and> streams w' 0 = Some [1, 2, 3, 4, 5, 6, 7, 8]
        \<and> trace w' = [Fopen ''f'', Fread 0 4 1, Fread 0 4 1, Fread 0 4 1, Fread 0 4 1, Malloc 8])"
proof -
  have l: "files (one_file_world (label_file 2 [7, 3]) 0) ''f'' = Some (label_file 2 [7, 3])"
    by (simp add: one_file_world_def)
  have i: "files (one_file_world (image_file 2 2 2 [1, 2, 3, 4, 5, 6, 7, 8]) 0) ''f''
             = Some (image_file 2 2 2 [1, 2, 3, 4, 5, 6, 7, 8])"
    by (simp add: one_file_world_def)
  show ?thesis
    using load_labels_alloc_fails [OF l] load_images_alloc_fails [OF i]
    by (simp add: one_file_world_def)
qed

text \<open>
  Claim C1. The payload size is the product of the three header fields computed in 32
  bits and stored in an \<^verbatim>\<open>int\<close>. For the image file that declares 65536 images of 65536
  rows and 1 column and carries all of its 4294967296 pixels, the product wraps to 0: the
  loader allocates a block of 0 bytes, reads 0 bytes and returns a valid set with count
  65536, 65536 rows and 1 column.
\<close>

theorem load_images_size_wraps:
  "length (replicate 4294967296 (0 :: u8)) = 65536 * 65536 * 1
   \<and> (case mnist_load_images (Some ''f'')
              (one_file_world (image_file 65536 65536 1 (replicate 4294967296 0)) 4096) of
      (images, w') \<Rightarrow>
        images = \<lparr>mnist_images.count = 65536, mnist_images.rows = 65536,
                   mnist_images.columns = 1, mnist_images.data = 4096, mnist_images.valid = 1\<rparr>
        \<and> blocks w' 4096 = Some 0
        \<and> trace w' = [Fopen ''f'', Fread 0 4 1, Fread 0 4 1, Fread 0 4 1, Fread 0 4 1,
                       Malloc 0, Fread 0 1 0, Fclose 0])"
proof -
  let ?w = "one_file_world (image_file 65536 65536 1 (replicate 4294967296 0)) 4096"
  have f: "files ?w ''f'' = Some (image_file 65536 65536 1 (replicate 4294967296 0))"
    by (simp add: one_file_world_def)
  have z: "(0 :: size_t) = scast (65536 * 65536 * 1 :: u32)" by simp
  have a: "allocator ?w 0 \<noteq> 0" by (simp add: one_file_world_def)
  have l: "unat (0 :: size_t) \<le> length (replicate 4294967296 (0 :: u8))" by simp
  show ?thesis
    using load_images_file [OF f z a l]
    by (simp add: one_file_world_def)
qed

text \<open>
  Claim C6. The image file of 16 bytes that declares 65536 images of 65536 rows and 1
  column and has no payload at all is accepted: the payload size wraps to 0, the read of 0
  bytes is complete, and the loader returns a valid set with count 65536, 65536 rows and 1
  column over a block of 0 bytes, which is not freed.
\<close>

theorem load_images_accepts_truncated_file:
  "length (image_file 65536 65536 1 []) = 16
   \<and> (case mnist_load_images (Some ''f'') (one_file_world (image_file 65536 65536 1 []) 4096) of
      (images, w') \<Rightarrow>
        images = \<lparr>mnist_images.count = 65536, mnist_images.rows = 65536,
                   mnist_images.columns = 1, mnist_images.data = 4096, mnist_images.valid = 1\<rparr>
        \<and> blocks w' 4096 = Some 0
        \<and> trace w' = [Fopen ''f'', Fread 0 4 1, Fread 0 4 1, Fread 0 4 1, Fread 0 4 1,
                       Malloc 0, Fread 0 1 0, Fclose 0])"
proof -
  let ?w = "one_file_world (image_file 65536 65536 1 []) 4096"
  have f: "files ?w ''f'' = Some (image_file 65536 65536 1 [])"
    by (simp add: one_file_world_def)
  have z: "(0 :: size_t) = scast (65536 * 65536 * 1 :: u32)" by simp
  have a: "allocator ?w 0 \<noteq> 0" by (simp add: one_file_world_def)
  have l: "unat (0 :: size_t) \<le> length ([] :: u8 list)" by simp
  show ?thesis
    using load_images_file [OF f z a l]
    by (simp add: one_file_world_def image_file_def be_bytes_explicit)
qed

text \<open>
  Claim C5. When the magic number \<open>m\<close> at the head of the file is not the constant of the
  loader, the loader returns the all-zero structure (valid 0, null buffer), the heap and
  the blocks of the allocator are unchanged, the stream is closed, and the only library
  calls are the \<^verbatim>\<open>fopen\<close>, reads of single header fields (two for a label file, up to
  four for an image file) and the \<^verbatim>\<open>fclose\<close>: there is no \<^verbatim>\<open>malloc\<close> and no read of the
  payload.
\<close>

theorem load_magic_mismatch:
  assumes "files w path = Some (be_bytes m @ rest)"
  shows "(m \<noteq> MAGIC_NUMBER_LABELS \<longrightarrow>
           (case mnist_load_labels (Some path) w of
              (labels, w') \<Rightarrow>
                mnist_labels.valid labels = 0 \<and> mnist_labels.data labels = 0
                \<and> mnist_labels.count labels = 0
                \<and> heap w' = heap w \<and> blocks w' = blocks w
                \<and> streams w' (next_stream w) = None
                \<and> trace w' = trace w @ [Fopen path, Fread (next_stream w) 4 1,
                      Fread (next_stream w) 4 1, Fclose (next_stream w)]))
       \<and> (m \<noteq> MAGIC_NUMBER_IMAGES \<longrightarrow>
           (case mnist_load_images (Some path) w of
              (images, w') \<Rightarrow>
                mnist_images.valid images = 0 \<and> mnist_images.data images = 0
                \<and> mnist_images.count images = 0
                \<and> heap w' = heap w \<and> blocks w' = blocks w
                \<and> streams w' (next_stream w) = None
                \<and> trace w' = trace w @ Fopen path
                      # replicate (min 4 (length rest div 4 + 2)) (Fread (next_stream w) 4 1)
                      @ [Fclose (next_stream w)]))"
proof -
  have f: "files w path = Some (ucast (drop_bit 24 m) # ucast (drop_bit 16 m)
             # ucast (drop_bit 8 m) # ucast m # rest)"
    using assms by (simp add: be_bytes_explicit)
  have l: "mnist_load_labels (Some path) w = (labels_zero, after_header w path 2)"
    if "m \<noteq> MAGIC_NUMBER_LABELS"
    using that load_labels_mismatch_bytes [OF f] by (simp add: be_u32_of_be_bytes)
  have i: "mnist_load_images (Some path) w =
             (images_zero, after_header w path (min 4 (length rest div 4 + 2)))"
    if "m \<noteq> MAGIC_NUMBER_IMAGES"
    using that load_images_mismatch_bytes [OF f] by (simp add: be_u32_of_be_bytes)
  show ?thesis
  proof (intro conjI impI)
    assume "m \<noteq> MAGIC_NUMBER_LABELS"
    then show "case mnist_load_labels (Some path) w of
              (labels, w') \<Rightarrow>
                mnist_labels.valid labels = 0 \<and> mnist_labels.data labels = 0
                \<and> mnist_labels.count labels = 0
                \<and> heap w' = heap w \<and> blocks w' = blocks w
                \<and> streams w' (next_stream w) = None
                \<and> trace w' = trace w @ [Fopen path, Fread (next_stream w) 4 1,
                      Fread (next_stream w) 4 1, Fclose (next_stream w)]"
      by (simp add: l labels_zero_def after_header_def replicate_small)
  next
    assume "m \<noteq> MAGIC_NUMBER_IMAGES"
    then show "case mnist_load_images (Some path) w of
              (images, w') \<Rightarrow>
                mnist_images.valid images = 0 \<and> mnist_images.data images = 0
                \<and> mnist_images.count images = 0
                \<and> heap w' = heap w \<and> blocks w' = blocks w
                \<and> streams w' (next_stream w) = None
                \<and> trace w' = trace w @ Fopen path
                      # replicate (min 4 (length rest div 4 + 2)) (Fread (next_stream w) 4 1)
                      @ [Fclose (next_stream w)]"
      by (simp add: i images_zero_def after_header_def)
  qed
qed

text \<open>An image file given to the label loader, and a label file given to the image loader.\<close>

theorem load_magic_mismatch_witness:
  "files (one_file_world (image_file 2 2 2 [1, 2, 3, 4, 5, 6, 7, 8]) 4096) ''f''
     = Some (be_bytes MAGIC_NUMBER_IMAGES @ be_bytes 2 @ be_bytes 2 @ be_bytes 2 @ [1, 2, 3, 4, 5, 6, 7, 8])
   \<and> MAGIC_NUMBER_IMAGES \<noteq> MAGIC_NUMBER_LABELS
   \<and> (case mnist_load_labels (Some ''f'')
              (one_file_world (image_file 2 2 2 [1, 2, 3, 4, 5, 6, 7, 8]) 4096) of
        (labels, w') \<Rightarrow>
          mnist_labels.valid labels = 0 \<and> mnist_labels.data labels = 0
          \<and> mnist_labels.count labels = 0
          \<and> heap w' = (\<lambda>_. None) \<and> blocks w' = (\<lambda>_. None)
          \<and> streams w' 0 = None
          \<and> trace w' = [Fopen ''f'', Fread 0 4 1, Fread 0 4 1, Fclose 0])
   \<and> files (one_file_world (label_file 2 [7, 3]) 4096) ''f''
     = Some (be_bytes MAGIC_NUMBER_LABELS @ be_bytes 2 @ [7, 3])
   \<and> MAGIC_NUMBER_LABELS \<noteq> MAGIC_NUMBER_IMAGES
   \<and> (case mnist_load_images (Some ''f'') (one_file_world (label_file 2 [7, 3]) 4096) of
        (images, w') \<Rightarrow>
          mnist_images.valid images = 0 \<and> mnist_images.data images = 0
          \<and> mnist_images.count images = 0
          \<and> heap w' = (\<lambda>_. None) \<and> blocks w' = (\<lambda>_. None)
          \<and> streams w' 0 = None
          \<and> trace w' = [Fopen ''f'', Fread 0 4 1, Fread 0 4 1, Fread 0 4 1, Fclose 0])"
  using
    load_magic_mismatch [of "one_file_world (image_file 2 2 2 [1, 2, 3, 4, 5, 6, 7, 8]) 4096"
      "''f''" MAGIC_NUMBER_IMAGES "be_bytes 2 @ be_bytes 2 @ be_bytes 2 @ [1, 2, 3, 4, 5, 6, 7, 8]"]
    load_magic_mismatch [of "one_file_world (label_file 2 [7, 3]) 4096"
      "''f''" MAGIC_NUMBER_LABELS "be_bytes 2 @ [7, 3]"]
  by (simp add: one_file_world_def image_file_def label_file_def MAGIC_NUMBER_LABELS_def
      MAGIC_NUMBER_IMAGES_def be_bytes_explicit replicate_small)


section \<open>The accessors: offsets into the buffer\<close>

lemma word_of_sint: "word_of_int (sint a) = (a :: c_int)"
  by simp

lemma sint_mult3:
  assumes "- (2 ^ 31) \<le> sint a * sint b * sint c" and "sint a * sint b * sint c < 2 ^ 31"
  shows "sint (a * b * c :: c_int) = sint a * sint b * sint c"
proof -
  have "(word_of_int (sint a * sint b * sint c) :: c_int) = a * b * c"
    by (simp only: of_int_mult word_of_sint)
  then have "sint (a * b * c) = sint (word_of_int (sint a * sint b * sint c) :: c_int)"
    by (simp only:)
  also have "\<dots> = sint a * sint b * sint c"
    using assms by (rule sint_in_range)
  finally show ?thesis .
qed

lemma scast_mult3:
  assumes "- (2 ^ 31) \<le> sint a * sint b * sint c" and "sint a * sint b * sint c < 2 ^ 31"
  shows "(scast (a * b * c :: c_int) :: ptr) = word_of_int (sint a * sint b * sint c)"
  by (simp only: scast_eq sint_mult3 [OF assms])

lemma holds_nth_int:
  assumes "holds h (p - of_nat L) mem" and "0 \<le> int L + z" and "int L + z < int (length mem)"
  shows "h (p + word_of_int z) = Some (mem ! nat (int L + z))"
proof -
  have "h (p - of_nat L + of_nat (nat (int L + z))) = Some (mem ! nat (int L + z))"
    using assms by (intro holds_nth) simp_all
  moreover have "(of_nat (nat (int L + z)) :: ptr) = of_nat L + word_of_int z"
    using assms(2) by (simp add: of_nat_nat)
  ultimately show ?thesis by simp
qed

lemma holds_window:
  assumes "holds h p mem" and "k + n \<le> length mem"
  shows "holds h (p + of_nat k) (take n (drop k mem))"
proof -
  have len: "length (take n (drop k mem)) = n" using assms(2) by simp
  have "load_bytes h (p + of_nat k) n = map Some (take n (drop k mem))"
  proof (rule nth_equalityI)
    show "length (load_bytes h (p + of_nat k) n) = length (map Some (take n (drop k mem)))"
      using len by (simp add: load_bytes_def)
  next
    fix j assume "j < length (load_bytes h (p + of_nat k) n)"
    then have j: "j < n" by (simp add: load_bytes_def)
    then have "h (p + of_nat (k + j)) = Some (mem ! (k + j))"
      using assms by (intro holds_nth) simp_all
    then show "load_bytes h (p + of_nat k) n ! j = map Some (take n (drop k mem)) ! j"
      using j assms(2) by (simp add: load_bytes_def add.assoc)
  qed
  with len show ?thesis by (simp only: holds_def)
qed

lemma holds_window_int:
  assumes "holds h (p - of_nat L) mem" and "0 \<le> int L + z"
    and "nat (int L + z) + n \<le> length mem"
  shows "holds h (p + word_of_int z) (take n (drop (nat (int L + z)) mem))"
proof -
  have "holds h (p - of_nat L + of_nat (nat (int L + z))) (take n (drop (nat (int L + z)) mem))"
    using assms(1,3) by (rule holds_window)
  moreover have "(of_nat (nat (int L + z)) :: ptr) = of_nat L + word_of_int z"
    using assms(2) by (simp add: of_nat_nat)
  ultimately show ?thesis by simp
qed

lemma get_image_fields:
  "mnist_image.rows (mnist_get_image images index) = mnist_images.rows images"
  "mnist_image.columns (mnist_get_image images index) = mnist_images.columns images"
  "mnist_image.data (mnist_get_image images index) =
     mnist_images.data images
       + scast (mnist_images.rows images * mnist_images.columns images * index)"
  by (simp_all add: mnist_get_image_def)

lemma get_label_int:
  "mnist_get_label h labels index = h (mnist_labels.data labels + word_of_int (sint index))"
  by (simp only: mnist_get_label_def scast_eq)

text \<open>
  Claim C8. For a valid image set and an index with \<open>0 \<le> index < count\<close>,
  \<^verbatim>\<open>mnist_get_image\<close> returns a view with the rows and columns of the set whose data
  pointer is \<open>data + rows * columns * index\<close>, an address inside the buffer of the set:
  the \<open>rows * columns\<close> bytes the heap has there are those of the buffer from offset
  \<open>rows * columns * index\<close> on. The accessor takes no heap and returns none, so nothing
  is copied. For a valid label set and an index in range, \<^verbatim>\<open>mnist_get_label\<close> returns the
  byte of the buffer at \<open>index\<close>. The witness is the example of the claim: two 2 by 2
  images with the pixels 1 to 8, and the labels 7 and 3.
\<close>

theorem accessors_in_range:
  "(images_ok h images buf \<and> 0 \<le> sint index \<and> sint index < sint (mnist_images.count images)
      \<longrightarrow>
      (let view = mnist_get_image images index;
           r = nat (sint (mnist_images.rows images));
           c = nat (sint (mnist_images.columns images));
           i = nat (sint index)
       in mnist_image.rows view = mnist_images.rows images
          \<and> mnist_image.columns view = mnist_images.columns images
          \<and> mnist_image.data view = mnist_images.data images + of_nat (r * c * i)
          \<and> r * c * i + r * c \<le> length buf
          \<and> holds h (mnist_image.data view) (take (r * c) (drop (r * c * i) buf))))
   \<and> (labels_ok h labels lbuf \<and> 0 \<le> sint lindex
        \<and> sint lindex < sint (mnist_labels.count labels)
      \<longrightarrow> mnist_get_label h labels lindex = Some (lbuf ! nat (sint lindex)))"
proof (intro conjI impI)
  assume a: "images_ok h images buf \<and> 0 \<le> sint index
               \<and> sint index < sint (mnist_images.count images)"
  define r where "r = nat (sint (mnist_images.rows images))"
  define c where "c = nat (sint (mnist_images.columns images))"
  define i where "i = nat (sint index)"
  define n where "n = nat (sint (mnist_images.count images))"
  from a have ri: "sint (mnist_images.rows images) = int r"
    and ci: "sint (mnist_images.columns images) = int c"
    and ii: "sint index = int i"
    and ni: "sint (mnist_images.count images) = int n"
    by (simp_all add: images_ok_def r_def c_def i_def n_def)
  from a have len: "length buf = n * r * c"
    unfolding images_ok_def ri ci ni by (metis (no_types) of_nat_mult of_nat_eq_iff)
  from a have small: "length buf < 2 ^ 31" and hold: "holds h (mnist_images.data images) buf"
    by (simp_all add: images_ok_def)
  from a ii ni have "Suc i \<le> n" by simp
  then have "r * c * Suc i \<le> r * c * n" by (rule mult_le_mono2)
  moreover have "r * c * Suc i = r * c * i + r * c" by simp
  moreover have "r * c * n = length buf" by (simp add: len ac_simps)
  ultimately have fit: "r * c * i + r * c \<le> length buf" by (simp only:)
  have z: "sint (mnist_images.rows images) * sint (mnist_images.columns images) * sint index
             = int (r * c * i)"
    by (simp add: ri ci ii)
  have "r * c * i < 2 ^ 31" using fit small by linarith
  then have "int (r * c * i) < 2 ^ 31"
    by (simp only: of_nat_less_numeral_power_cancel_iff)
  then have hi: "sint (mnist_images.rows images) * sint (mnist_images.columns images)
                   * sint index < 2 ^ 31"
    by (simp only: z)
  have "- (2 ^ 31) \<le> (0 :: int)" by simp
  also have "0 \<le> int (r * c * i)" by simp
  finally have lo: "- (2 ^ 31) \<le> sint (mnist_images.rows images)
                      * sint (mnist_images.columns images) * sint index"
    by (simp only: z)
  have "(scast (mnist_images.rows images * mnist_images.columns images * index) :: ptr)
               = word_of_int (int (r * c * i))"
    using scast_mult3 [OF lo hi] by (simp only: z)
  then have d: "mnist_image.data (mnist_get_image images index)
                  = mnist_images.data images + of_nat (r * c * i)"
    by (simp add: get_image_fields)
  have "holds h (mnist_images.data images + of_nat (r * c * i))
          (take (r * c) (drop (r * c * i) buf))"
    using hold fit by (rule holds_window)
  with d fit show "let view = mnist_get_image images index;
           r = nat (sint (mnist_images.rows images));
           c = nat (sint (mnist_images.columns images));
           i = nat (sint index)
       in mnist_image.rows view = mnist_images.rows images
          \<and> mnist_image.columns view = mnist_images.columns images
          \<and> mnist_image.data view = mnist_images.data images + of_nat (r * c * i)
          \<and> r * c * i + r * c \<le> length buf
          \<and> holds h (mnist_image.data view) (take (r * c) (drop (r * c * i) buf))"
    by (simp add: Let_def get_image_fields(1,2) r_def [symmetric] c_def [symmetric]
        i_def [symmetric])
next
  assume a: "labels_ok h labels lbuf \<and> 0 \<le> sint lindex
               \<and> sint lindex < sint (mnist_labels.count labels)"
  then have "holds h (mnist_labels.data labels - of_nat 0) lbuf"
    and "0 \<le> int 0 + sint lindex" and "int 0 + sint lindex < int (length lbuf)"
    by (simp_all add: labels_ok_def)
  then have "h (mnist_labels.data labels + word_of_int (sint lindex))
               = Some (lbuf ! nat (int 0 + sint lindex))"
    by (rule holds_nth_int)
  then show "mnist_get_label h labels lindex = Some (lbuf ! nat (sint lindex))"
    by (simp add: get_label_int)
qed

theorem accessors_in_range_witness:
  "images_ok (store_bytes 4096 [1, 2, 3, 4, 5, 6, 7, 8] (store_bytes 8192 [7, 3] (\<lambda>_. None)))
     \<lparr>mnist_images.count = 2, mnist_images.rows = 2, mnist_images.columns = 2,
       mnist_images.data = 4096, mnist_images.valid = 1\<rparr> [1, 2, 3, 4, 5, 6, 7, 8]
   \<and> 0 \<le> sint (1 :: c_int) \<and> sint (1 :: c_int) < sint (2 :: c_int)
   \<and> mnist_get_image
        \<lparr>mnist_images.count = 2, mnist_images.rows = 2, mnist_images.columns = 2,
          mnist_images.data = 4096, mnist_images.valid = 1\<rparr> 1
       = \<lparr>mnist_image.rows = 2, mnist_image.columns = 2, mnist_image.data = 4100\<rparr>
   \<and> holds (store_bytes 4096 [1, 2, 3, 4, 5, 6, 7, 8] (store_bytes 8192 [7, 3] (\<lambda>_. None)))
        4100 [5, 6, 7, 8]
   \<and> labels_ok (store_bytes 4096 [1, 2, 3, 4, 5, 6, 7, 8] (store_bytes 8192 [7, 3] (\<lambda>_. None)))
        \<lparr>mnist_labels.count = 2, mnist_labels.data = 8192, mnist_labels.valid = 1\<rparr> [7, 3]
   \<and> mnist_get_label
        (store_bytes 4096 [1, 2, 3, 4, 5, 6, 7, 8] (store_bytes 8192 [7, 3] (\<lambda>_. None)))
        \<lparr>mnist_labels.count = 2, mnist_labels.data = 8192, mnist_labels.valid = 1\<rparr> 0 = Some 7
   \<and> mnist_get_label
        (store_bytes 4096 [1, 2, 3, 4, 5, 6, 7, 8] (store_bytes 8192 [7, 3] (\<lambda>_. None)))
        \<lparr>mnist_labels.count = 2, mnist_labels.data = 8192, mnist_labels.valid = 1\<rparr> 1 = Some 3"
proof -
  let ?h = "store_bytes 4096 [1, 2, 3, 4, 5, 6, 7, 8] (store_bytes 8192 [7, 3] (\<lambda>_. None))"
  let ?images = "\<lparr>mnist_images.count = 2, mnist_images.rows = 2, mnist_images.columns = 2,
       mnist_images.data = 4096, mnist_images.valid = 1\<rparr>"
  let ?labels = "\<lparr>mnist_labels.count = 2, mnist_labels.data = 8192, mnist_labels.valid = 1\<rparr>"
  have i: "images_ok ?h ?images [1, 2, 3, 4, 5, 6, 7, 8]"
    by (simp add: images_ok_def holds_def load_bytes_def store_bytes_def)
  have l: "labels_ok ?h ?labels [7, 3]"
    by (simp add: labels_ok_def holds_def load_bytes_def store_bytes_def)
  have g: "mnist_get_image ?images 1
       = \<lparr>mnist_image.rows = 2, mnist_image.columns = 2, mnist_image.data = 4100\<rparr>"
    by (simp add: mnist_get_image_def)
  show ?thesis
    using i l g
      accessors_in_range [of ?h ?images "[1, 2, 3, 4, 5, 6, 7, 8]" 1 ?labels "[7, 3]" 0]
      accessors_in_range [of ?h ?images "[1, 2, 3, 4, 5, 6, 7, 8]" 1 ?labels "[7, 3]" 1]
    by (simp add: Let_def)
qed

text \<open>
  Claim C2, as stated, fails: \<^verbatim>\<open>mnist_get_label\<close> and \<^verbatim>\<open>mnist_get_image\<close> make no bounds check
  and have no failure to report. With the labels 7 and 3 at address 4096 between the bytes
  9 and 42, index 2 (the count) returns 42 and index -1 returns 9; for two 2 by 2 images at
  4096, index 2 (the count) returns a view at address 4104, past the 8 bytes of the buffer.
\<close>

theorem accessors_out_of_range_counterexample:
  "mnist_get_label (store_bytes 4095 [9, 7, 3, 42] (\<lambda>_. None))
      \<lparr>mnist_labels.count = 2, mnist_labels.data = 4096, mnist_labels.valid = 1\<rparr> 2 = Some 42
   \<and> mnist_get_label (store_bytes 4095 [9, 7, 3, 42] (\<lambda>_. None))
      \<lparr>mnist_labels.count = 2, mnist_labels.data = 4096, mnist_labels.valid = 1\<rparr> (- 1) = Some 9
   \<and> mnist_get_image
        \<lparr>mnist_images.count = 2, mnist_images.rows = 2, mnist_images.columns = 2,
          mnist_images.data = 4096, mnist_images.valid = 1\<rparr> 2
       = \<lparr>mnist_image.rows = 2, mnist_image.columns = 2, mnist_image.data = 4104\<rparr>"
  by (simp add: mnist_get_label_def mnist_get_image_def store_bytes_def)

lemma take_drop_pre:
  "k + n \<le> length pre \<Longrightarrow> take n (drop k (pre @ rest)) = take n (drop k pre)"
  by simp

lemma take_drop_post:
  "length pre + length buf \<le> k \<Longrightarrow>
   take n (drop k (pre @ buf @ post)) = take n (drop (k - length pre - length buf) post)"
  by simp

lemma get_label_adjacent:
  assumes "holds h (mnist_labels.data labels - of_nat (length pre)) (pre @ buf @ post)"
    and "int (length buf) = sint (mnist_labels.count labels)"
    and "\<not> (0 \<le> sint index \<and> sint index < sint (mnist_labels.count labels))"
    and "- int (length pre) \<le> sint index"
    and "sint index < int (length buf + length post)"
  shows "mnist_get_label h labels index =
          Some (if sint index < 0 then pre ! nat (int (length pre) + sint index)
                else post ! nat (sint index - int (length buf)))"
proof -
  from assms have "holds h (mnist_labels.data labels - of_nat (length pre)) (pre @ buf @ post)"
    and "0 \<le> int (length pre) + sint index"
    and "int (length pre) + sint index < int (length (pre @ buf @ post))"
    by simp_all
  then have r: "h (mnist_labels.data labels + word_of_int (sint index))
               = Some ((pre @ buf @ post) ! nat (int (length pre) + sint index))"
    by (rule holds_nth_int)
  show ?thesis
  proof (cases "sint index < 0")
    case True
    with assms have "nat (int (length pre) + sint index) < length pre" by linarith
    with True r show ?thesis by (simp add: get_label_int nth_append)
  next
    case False
    with assms have ge: "int (length buf) \<le> sint index" by linarith
    then have "nat (int (length pre) + sint index) - length pre - length buf
                 = nat (sint index - int (length buf))"
      by linarith
    moreover from ge have "\<not> nat (int (length pre) + sint index) < length pre"
      and "\<not> nat (int (length pre) + sint index) - length pre < length buf"
      by linarith+
    ultimately show ?thesis using False r by (simp add: get_label_int nth_append)
  qed
qed

lemma get_image_adjacent:
  assumes hold: "holds h (mnist_images.data images - of_nat (length pre)) (pre @ buf @ post)"
    and n: "n = sint (mnist_images.rows images) * sint (mnist_images.columns images)"
    and z: "z = n * sint index"
    and n0: "0 \<le> n"
    and c0: "0 \<le> sint (mnist_images.count images)"
    and len: "int (length buf) = sint (mnist_images.count images) * n"
    and out: "\<not> (0 \<le> sint index \<and> sint index < sint (mnist_images.count images))"
    and lo: "- (2 ^ 31) \<le> z" and hi: "z < 2 ^ 31"
    and pre: "- int (length pre) \<le> z"
    and post: "z + n \<le> int (length buf + length post)"
  shows "holds h (mnist_image.data (mnist_get_image images index))
           (if sint index < 0 then take (nat n) (drop (nat (int (length pre) + z)) pre)
            else take (nat n) (drop (nat (z - int (length buf))) post))"
proof -
  have zz: "sint (mnist_images.rows images) * sint (mnist_images.columns images) * sint index = z"
    by (simp only: z n)
  have "(scast (mnist_images.rows images * mnist_images.columns images * index) :: ptr)
          = word_of_int z"
    using scast_mult3 [of "mnist_images.rows images" "mnist_images.columns images" index]
      lo hi by (simp only: zz)
  then have d: "mnist_image.data (mnist_get_image images index)
                  = mnist_images.data images + word_of_int z"
    by (simp add: get_image_fields)
  have "0 \<le> int (length pre) + z" using pre by linarith
  moreover have "nat (int (length pre) + z) + nat n \<le> length (pre @ buf @ post)"
    using pre post n0 by simp
  ultimately have w: "holds h (mnist_images.data images + word_of_int z)
       (take (nat n) (drop (nat (int (length pre) + z)) (pre @ buf @ post)))"
    using hold by (intro holds_window_int)
  show ?thesis
  proof (cases "sint index < 0")
    case True
    then have "sint index \<le> - 1" by simp
    then have "n * sint index \<le> n * (- 1)" using n0 by (rule mult_left_mono)
    then have "z + n \<le> 0" by (simp add: z)
    with pre n0 have "nat (int (length pre) + z) + nat n \<le> length pre" by linarith
    then have "take (nat n) (drop (nat (int (length pre) + z)) (pre @ buf @ post))
                 = take (nat n) (drop (nat (int (length pre) + z)) pre)"
      by (rule take_drop_pre)
    with w have "holds h (mnist_images.data images + word_of_int z)
                   (take (nat n) (drop (nat (int (length pre) + z)) pre))"
      by (simp only:)
    then show ?thesis by (simp only: d True if_True)
  next
    case False
    with out have "sint (mnist_images.count images) \<le> sint index" by linarith
    then have "n * sint (mnist_images.count images) \<le> n * sint index"
      using n0 by (rule mult_left_mono)
    then have ge: "int (length buf) \<le> z" by (simp add: z len mult.commute)
    then have "length pre + length buf \<le> nat (int (length pre) + z)" by linarith
    then have "take (nat n) (drop (nat (int (length pre) + z)) (pre @ buf @ post))
                 = take (nat n) (drop (nat (int (length pre) + z) - length pre - length buf) post)"
      by (rule take_drop_post)
    moreover from ge have "nat (int (length pre) + z) - length pre - length buf
                 = nat (z - int (length buf))"
      by linarith
    ultimately have "take (nat n) (drop (nat (int (length pre) + z)) (pre @ buf @ post))
                 = take (nat n) (drop (nat (z - int (length buf))) post)"
      by (simp only:)
    with w have "holds h (mnist_images.data images + word_of_int z)
                   (take (nat n) (drop (nat (z - int (length buf))) post))"
      by (simp only:)
    then show ?thesis by (simp only: d False if_False)
  qed
qed

text \<open>
  Claim C2, amended. For every label set or image set and every index outside
  \<open>[0, count)\<close> the accessor does not fail: \<^verbatim>\<open>mnist_get_label\<close> returns the byte that the
  memory before or after the buffer has at \<open>data + index\<close>, and \<^verbatim>\<open>mnist_get_image\<close> returns
  a view with the rows and columns of the set onto the \<open>rows * columns\<close> bytes of the memory
  before or after the buffer at \<open>data + rows * columns * index\<close>, wherever those addresses
  hold bytes and the offset fits an \<^verbatim>\<open>int\<close>.
\<close>

theorem accessors_unchecked:
  "(holds h (mnist_labels.data labels - of_nat (length pre)) (pre @ buf @ post)
      \<and> int (length buf) = sint (mnist_labels.count labels)
      \<and> \<not> (0 \<le> sint index \<and> sint index < sint (mnist_labels.count labels))
      \<and> - int (length pre) \<le> sint index
      \<and> sint index < int (length buf + length post)
    \<longrightarrow> mnist_get_label h labels index =
          Some (if sint index < 0 then pre ! nat (int (length pre) + sint index)
                else post ! nat (sint index - int (length buf))))
   \<and> mnist_image.rows (mnist_get_image images index) = mnist_images.rows images
   \<and> mnist_image.columns (mnist_get_image images index) = mnist_images.columns images
   \<and> (holds h (mnist_images.data images - of_nat (length pre')) (pre' @ buf' @ post')
      \<and> n = sint (mnist_images.rows images) * sint (mnist_images.columns images)
      \<and> z = n * sint index
      \<and> 0 \<le> n
      \<and> 0 \<le> sint (mnist_images.count images)
      \<and> int (length buf') = sint (mnist_images.count images) * n
      \<and> \<not> (0 \<le> sint index \<and> sint index < sint (mnist_images.count images))
      \<and> - (2 ^ 31) \<le> z \<and> z < 2 ^ 31
      \<and> - int (length pre') \<le> z
      \<and> z + n \<le> int (length buf' + length post')
    \<longrightarrow> holds h (mnist_image.data (mnist_get_image images index))
           (if sint index < 0 then take (nat n) (drop (nat (int (length pre') + z)) pre')
            else take (nat n) (drop (nat (z - int (length buf'))) post')))"
proof (intro conjI)
  show "holds h (mnist_labels.data labels - of_nat (length pre)) (pre @ buf @ post)
      \<and> int (length buf) = sint (mnist_labels.count labels)
      \<and> \<not> (0 \<le> sint index \<and> sint index < sint (mnist_labels.count labels))
      \<and> - int (length pre) \<le> sint index
      \<and> sint index < int (length buf + length post)
    \<longrightarrow> mnist_get_label h labels index =
          Some (if sint index < 0 then pre ! nat (int (length pre) + sint index)
                else post ! nat (sint index - int (length buf)))"
    using get_label_adjacent [of h labels pre buf post index] by blast
next
  show "holds h (mnist_images.data images - of_nat (length pre')) (pre' @ buf' @ post')
      \<and> n = sint (mnist_images.rows images) * sint (mnist_images.columns images)
      \<and> z = n * sint index
      \<and> 0 \<le> n
      \<and> 0 \<le> sint (mnist_images.count images)
      \<and> int (length buf') = sint (mnist_images.count images) * n
      \<and> \<not> (0 \<le> sint index \<and> sint index < sint (mnist_images.count images))
      \<and> - (2 ^ 31) \<le> z \<and> z < 2 ^ 31
      \<and> - int (length pre') \<le> z
      \<and> z + n \<le> int (length buf' + length post')
    \<longrightarrow> holds h (mnist_image.data (mnist_get_image images index))
           (if sint index < 0 then take (nat n) (drop (nat (int (length pre') + z)) pre')
            else take (nat n) (drop (nat (z - int (length buf'))) post'))"
    using get_image_adjacent [of h images pre' buf' post' n z index] by blast
qed (simp_all add: get_image_fields)

theorem accessors_unchecked_witness:
  "holds (store_bytes 8191 [9, 7, 3, 42]
            (store_bytes 4092 [0, 0, 0, 0, 1, 2, 3, 4, 5, 6, 7, 8, 9, 10, 11, 12] (\<lambda>_. None)))
      (8192 - of_nat (length [9 :: u8])) ([9] @ [7, 3] @ [42])
   \<and> \<not> (0 \<le> sint (2 :: c_int) \<and> sint (2 :: c_int) < sint (2 :: c_int))
   \<and> mnist_get_label
        (store_bytes 8191 [9, 7, 3, 42]
            (store_bytes 4092 [0, 0, 0, 0, 1, 2, 3, 4, 5, 6, 7, 8, 9, 10, 11, 12] (\<lambda>_. None)))
        \<lparr>mnist_labels.count = 2, mnist_labels.data = 8192, mnist_labels.valid = 1\<rparr> 2 = Some 42
   \<and> holds (store_bytes 8191 [9, 7, 3, 42]
            (store_bytes 4092 [0, 0, 0, 0, 1, 2, 3, 4, 5, 6, 7, 8, 9, 10, 11, 12] (\<lambda>_. None)))
      (4096 - of_nat (length [0, 0, 0, 0 :: u8]))
      ([0, 0, 0, 0] @ [1, 2, 3, 4, 5, 6, 7, 8] @ [9, 10, 11, 12])
   \<and> holds (store_bytes 8191 [9, 7, 3, 42]
            (store_bytes 4092 [0, 0, 0, 0, 1, 2, 3, 4, 5, 6, 7, 8, 9, 10, 11, 12] (\<lambda>_. None)))
      (mnist_image.data (mnist_get_image
         \<lparr>mnist_images.count = 2, mnist_images.rows = 2, mnist_images.columns = 2,
           mnist_images.data = 4096, mnist_images.valid = 1\<rparr> 2))
      [9, 10, 11, 12]"
proof -
  let ?h = "store_bytes 8191 [9, 7, 3, 42]
            (store_bytes 4092 [0, 0, 0, 0, 1, 2, 3, 4, 5, 6, 7, 8, 9, 10, 11, 12] (\<lambda>_. None))"
  let ?labels = "\<lparr>mnist_labels.count = 2, mnist_labels.data = 8192, mnist_labels.valid = 1\<rparr>"
  let ?images = "\<lparr>mnist_images.count = 2, mnist_images.rows = 2, mnist_images.columns = 2,
           mnist_images.data = 4096, mnist_images.valid = 1\<rparr>"
  have l: "holds ?h (8192 - of_nat (length [9 :: u8])) ([9] @ [7, 3] @ [42])"
    by (simp add: holds_def load_bytes_def store_bytes_def)
  have i: "holds ?h (4096 - of_nat (length [0, 0, 0, 0 :: u8]))
             ([0, 0, 0, 0] @ [1, 2, 3, 4, 5, 6, 7, 8] @ [9, 10, 11, 12])"
    by (simp add: holds_def load_bytes_def store_bytes_def)
  note t = accessors_unchecked [of ?h ?labels "[9]" "[7, 3]" "[42]" 2 ?images
      "[0, 0, 0, 0]" "[1, 2, 3, 4, 5, 6, 7, 8]" "[9, 10, 11, 12]" 4 8]
  have g: "mnist_get_label ?h ?labels 2 = Some 42"
    using t l by simp
  have v: "holds ?h (mnist_image.data (mnist_get_image ?images 2)) [9, 10, 11, 12]"
    using t i by simp
  show ?thesis using l i g v by simp
qed


section \<open>Printing: the loops write the grid\<close>

declare print_cols.simps [simp del] print_rows.simps [simp del]

lemma scast_of_nat_small: "n < 2 ^ 31 \<Longrightarrow> (scast (of_nat n :: c_int) :: ptr) = of_nat n"
  by (simp add: scast_eq sint_of_nat_small)

lemma nat_sint_less: "nat (sint (x :: c_int)) < 2 ^ 31"
  using sint_lt [of x] by simp

lemma of_nat_nat_sint: "0 < nat (sint (x :: c_int)) \<Longrightarrow> of_nat (nat (sint x)) = x"
proof -
  assume "0 < nat (sint x)"
  then have "0 \<le> sint x" by simp
  then have "(of_nat (nat (sint x)) :: c_int) = word_of_int (sint x)"
    by (simp only: of_nat_nat)
  then show ?thesis by simp
qed

lemma print_cols_from:
  assumes hold: "holds h (mnist_image.data img) px"
    and c: "c = nat (sint (mnist_image.columns img))"
    and fit: "i * c + c \<le> length px"
    and small: "length px < 2 ^ 31"
  shows "k \<le> c \<Longrightarrow>
         print_cols h img t (of_nat i) (of_nat k) out =
           Some (out @ concat (map (glyph t) (take (c - k) (drop (i * c + k) px))))"
proof (induction "c - k" arbitrary: k out)
  case 0
  then have k: "k = c" by simp
  have "sint (of_nat c :: c_int) = int c"
    unfolding c by (rule sint_of_nat_small) (rule nat_sint_less)
  moreover have "sint (mnist_image.columns img) \<le> int c" by (simp add: c)
  ultimately have "\<not> sint (of_nat k :: c_int) < sint (mnist_image.columns img)"
    by (simp add: k)
  then show ?case by (subst print_cols.simps) (simp add: k)
next
  case (Suc d)
  then have kc: "k < c" by simp
  then have cpos: "0 < nat (sint (mnist_image.columns img))" by (simp add: c)
  have cols: "mnist_image.columns img = of_nat c"
    unfolding c using cpos by (rule of_nat_nat_sint [symmetric])
  have csmall: "c < 2 ^ 31" unfolding c by (rule nat_sint_less)
  have ksmall: "k < 2 ^ 31" using kc csmall by simp
  have lt: "sint (of_nat k :: c_int) < sint (mnist_image.columns img)"
    using kc cpos by (simp add: sint_of_nat_small [OF ksmall] c)
  have off: "i * c + k < length px" using kc fit by simp
  then have offsmall: "i * c + k < 2 ^ 31" using small by simp
  have "(of_nat k + of_nat i * mnist_image.columns img :: c_int) = of_nat (i * c + k)"
    by (simp add: cols)
  then have addr: "mnist_image.data img + scast (of_nat k + of_nat i * mnist_image.columns img)
                 = mnist_image.data img + of_nat (i * c + k)"
    by (simp only: scast_of_nat_small [OF offsmall])
  have rd: "h (mnist_image.data img + of_nat (i * c + k)) = Some (px ! (i * c + k))"
    using hold off by (rule holds_nth)
  have d: "d = c - Suc k" using Suc.hyps(2) by simp
  have step: "print_cols h img t (of_nat i) (of_nat (Suc k)) (out @ glyph t (px ! (i * c + k)))
          = Some ((out @ glyph t (px ! (i * c + k)))
                @ concat (map (glyph t) (take (c - Suc k) (drop (i * c + Suc k) px))))"
    using kc by (intro Suc.hyps(1) d) simp
  have lst: "take (c - k) (drop (i * c + k) px)
               = px ! (i * c + k) # take (c - Suc k) (drop (i * c + Suc k) px)"
  proof -
    have "drop (i * c + k) px = px ! (i * c + k) # drop (Suc (i * c + k)) px"
      using off by (rule Cons_nth_drop_Suc [symmetric])
    moreover have "c - k = Suc (c - Suc k)" using kc by simp
    ultimately show ?thesis by simp
  qed
  have "print_cols h img t (of_nat i) (of_nat k) out
          = print_cols h img t (of_nat i) (of_nat k + 1) (out @ glyph t (px ! (i * c + k)))"
    by (subst print_cols.simps) (simp only: lt addr rd if_True option.case glyph_def)
  also have "\<dots> = Some ((out @ glyph t (px ! (i * c + k)))
                @ concat (map (glyph t) (take (c - Suc k) (drop (i * c + Suc k) px))))"
    using step by (simp add: add.commute)
  finally show ?case by (simp add: lst)
qed

lemma print_rows_from:
  assumes hold: "holds h (mnist_image.data img) px"
    and r: "r = nat (sint (mnist_image.rows img))"
    and c: "c = nat (sint (mnist_image.columns img))"
    and len: "length px = r * c"
    and small: "length px < 2 ^ 31"
  shows "i \<le> r \<Longrightarrow>
         print_rows h img t (of_nat i) out =
           Some (out @ concat (map (\<lambda>j. concat (map (glyph t) (take c (drop (j * c) px)))
                                      @ [CHR 0x0A]) [i..<r]))"
proof (induction "r - i" arbitrary: i out)
  case 0
  then have i: "i = r" by simp
  have "sint (of_nat r :: c_int) = int r"
    unfolding r by (rule sint_of_nat_small) (rule nat_sint_less)
  moreover have "sint (mnist_image.rows img) \<le> int r" by (simp add: r)
  ultimately have "\<not> sint (of_nat i :: c_int) < sint (mnist_image.rows img)"
    by (simp add: i)
  then show ?case by (subst print_rows.simps) (simp add: i)
next
  case (Suc d)
  then have ir: "i < r" by simp
  then have rpos: "0 < nat (sint (mnist_image.rows img))" by (simp add: r)
  have rsmall: "r < 2 ^ 31" unfolding r by (rule nat_sint_less)
  have ismall: "i < 2 ^ 31" using ir rsmall by simp
  have lt: "sint (of_nat i :: c_int) < sint (mnist_image.rows img)"
    using ir rpos by (simp add: sint_of_nat_small [OF ismall] r)
  from ir have "Suc i \<le> r" by simp
  then have "Suc i * c \<le> r * c" by (rule mult_le_mono1)
  then have fit: "i * c + c \<le> length px" by (simp add: len)
  let ?row = "concat (map (glyph t) (take c (drop (i * c) px)))"
  have "print_cols h img t (of_nat i) (of_nat 0) out =
          Some (out @ concat (map (glyph t) (take (c - 0) (drop (i * c + 0) px))))"
    using hold c fit small by (rule print_cols_from) simp
  then have cols: "print_cols h img t (of_nat i) 0 out = Some (out @ ?row)" by simp
  have d: "d = r - Suc i" using Suc.hyps(2) by simp
  have step: "print_rows h img t (of_nat (Suc i)) ((out @ ?row) @ [CHR 0x0A])
          = Some (((out @ ?row) @ [CHR 0x0A])
                @ concat (map (\<lambda>j. concat (map (glyph t) (take c (drop (j * c) px)))
                                      @ [CHR 0x0A]) [Suc i..<r]))"
    using ir by (intro Suc.hyps(1) d) simp
  have "print_rows h img t (of_nat i) out
          = print_rows h img t (of_nat i + 1) ((out @ ?row) @ [CHR 0x0A])"
    by (subst print_rows.simps) (simp only: lt cols if_True option.case)
  also have "\<dots> = Some (((out @ ?row) @ [CHR 0x0A])
                @ concat (map (\<lambda>j. concat (map (glyph t) (take c (drop (j * c) px)))
                                      @ [CHR 0x0A]) [Suc i..<r]))"
    using step by (simp add: add.commute)
  finally show ?case using ir by (simp add: upt_conv_Cons)
qed

lemma print_image_text:
  assumes "view_ok h img px"
  shows "mnist_print_image h img t out =
           Some (out @ grid_text (nat (sint (mnist_image.rows img)))
                         (nat (sint (mnist_image.columns img))) px t)"
proof -
  from assms have hold: "holds h (mnist_image.data img) px"
    and len: "length px = nat (sint (mnist_image.rows img)) * nat (sint (mnist_image.columns img))"
    and small: "length px < 2 ^ 31"
    by (simp_all add: view_ok_def)
  have "print_rows h img t (of_nat 0) out =
          Some (out @ concat (map (\<lambda>j. concat (map (glyph t)
                   (take (nat (sint (mnist_image.columns img)))
                      (drop (j * nat (sint (mnist_image.columns img))) px)))
                 @ [CHR 0x0A]) [0..<nat (sint (mnist_image.rows img))]))"
    using hold refl refl len small by (rule print_rows_from) simp
  then show ?thesis by (simp add: mnist_print_image_def grid_text_def)
qed

text \<open>
  Claim C9. The text \<^verbatim>\<open>mnist_print_image\<close> writes is a function of the view and the
  threshold: for a view of \<open>rows * columns\<close> pixels it is the grid text of these pixels, in
  which a pixel is \<open>##\<close> exactly when its value is at least the threshold and two blanks
  otherwise, appended to what was written before; any two heaps that hold the same pixels at
  the view give the same text.
\<close>

theorem print_image_grid:
  "view_ok h img px \<and> view_ok h' img px \<longrightarrow>
     mnist_print_image h img threshold out =
       Some (out @ grid_text (nat (sint (mnist_image.rows img)))
                     (nat (sint (mnist_image.columns img))) px threshold)
     \<and> mnist_print_image h' img threshold out = mnist_print_image h img threshold out"
  using print_image_text [of h img px threshold out] print_image_text [of h' img px threshold out]
  by simp

theorem print_image_grid_witness:
  "view_ok (store_bytes 4096 [1, 2, 3, 4, 5, 6, 7, 8] (\<lambda>_. None))
      \<lparr>mnist_image.rows = 2, mnist_image.columns = 2, mnist_image.data = 4100\<rparr> [5, 6, 7, 8]
   \<and> view_ok (store_bytes 4100 [5, 6, 7, 8] (\<lambda>_. Some 0))
      \<lparr>mnist_image.rows = 2, mnist_image.columns = 2, mnist_image.data = 4100\<rparr> [5, 6, 7, 8]
   \<and> mnist_print_image (store_bytes 4096 [1, 2, 3, 4, 5, 6, 7, 8] (\<lambda>_. None))
        \<lparr>mnist_image.rows = 2, mnist_image.columns = 2, mnist_image.data = 4100\<rparr> 6 []
      = Some [CHR '' '', CHR '' '', CHR ''#'', CHR ''#'', CHR 0x0A,
              CHR ''#'', CHR ''#'', CHR ''#'', CHR ''#'', CHR 0x0A, CHR 0x0A]
   \<and> mnist_print_image (store_bytes 4100 [5, 6, 7, 8] (\<lambda>_. Some 0))
        \<lparr>mnist_image.rows = 2, mnist_image.columns = 2, mnist_image.data = 4100\<rparr> 6 []
      = mnist_print_image (store_bytes 4096 [1, 2, 3, 4, 5, 6, 7, 8] (\<lambda>_. None))
        \<lparr>mnist_image.rows = 2, mnist_image.columns = 2, mnist_image.data = 4100\<rparr> 6 []"
proof -
  let ?img = "\<lparr>mnist_image.rows = 2, mnist_image.columns = 2, mnist_image.data = 4100\<rparr>"
  have a: "view_ok (store_bytes 4096 [1, 2, 3, 4, 5, 6, 7, 8] (\<lambda>_. None)) ?img [5, 6, 7, 8]"
    by (simp add: view_ok_def holds_def load_bytes_def store_bytes_def)
  have b: "view_ok (store_bytes 4100 [5, 6, 7, 8] (\<lambda>_. Some 0)) ?img [5, 6, 7, 8]"
    by (simp add: view_ok_def holds_def load_bytes_def store_bytes_def)
  have g: "grid_text 2 2 [5, 6, 7, 8] 6 =
      [CHR '' '', CHR '' '', CHR ''#'', CHR ''#'', CHR 0x0A,
       CHR ''#'', CHR ''#'', CHR ''#'', CHR ''#'', CHR 0x0A, CHR 0x0A]"
    by (simp add: grid_text_def glyph_def upt_conv_Cons)
  show ?thesis
    using a b g
      print_image_grid [of "store_bytes 4096 [1, 2, 3, 4, 5, 6, 7, 8] (\<lambda>_. None)" ?img
        "[5, 6, 7, 8]" "store_bytes 4100 [5, 6, 7, 8] (\<lambda>_. Some 0)" 6 "[]"]
    by simp
qed

section \<open>Truncated payloads and the size of the image buffer\<close>

text \<open>
  A payload shorter than the size the loader computed is rejected: the stream is closed,
  the block is freed and the all-zero structure is returned. For a label file the size is
  the declared number of items; for an image file it is the 32-bit product read as an
  \<^verbatim>\<open>int\<close>, which is the declared size only when that is below \<open>2 ^ 31\<close>.
\<close>

lemma load_labels_truncated:
  assumes "files w path = Some (label_file n payload)"
    and "allocator w (ucast n) \<noteq> 0"
    and "length payload < unat n"
  shows "mnist_load_labels (Some path) w =
     (labels_zero,
      w\<lparr>streams := (streams w)(next_stream w := None),
        next_stream := Suc (next_stream w),
        heap := (\<lambda>a. if unat (a - allocator w (ucast n)) < unat n then None
                     else heap w a),
        blocks := (blocks w)(allocator w (ucast n) := None),
        trace := trace w @ [Fopen path, Fread (next_stream w) 4 1, Fread (next_stream w) 4 1,
                   Malloc (ucast n), Fread (next_stream w) 1 (unat n), Fclose (next_stream w),
                   Free (allocator w (ucast n))]\<rparr>)"
  using assms be_u32_of_be_bytes [of n] be_u32_of_be_bytes [of MAGIC_NUMBER_LABELS]
  by (simp add: label_file_def be_bytes_explicit mnist_load_labels_def fopen_ok fread_u32_ok
      fread_buf_short Let_def is_big_endian_host load_u32_swapped malloc_def fclose_def free_def
      unat_ucast_u32 store_bytes_def fun_eq_iff)

lemma load_images_truncated:
  assumes "files w path = Some (image_file n r c payload)"
    and "sz = scast (n * r * c)"
    and "allocator w sz \<noteq> 0"
    and "length payload < unat sz"
  shows "mnist_load_images (Some path) w =
     (images_zero,
      w\<lparr>streams := (streams w)(next_stream w := None),
        next_stream := Suc (next_stream w),
        heap := (\<lambda>a. if unat (a - allocator w sz) < unat sz then None
                     else heap w a),
        blocks := (blocks w)(allocator w sz := None),
        trace := trace w @ [Fopen path, Fread (next_stream w) 4 1, Fread (next_stream w) 4 1,
                   Fread (next_stream w) 4 1, Fread (next_stream w) 4 1,
                   Malloc sz, Fread (next_stream w) 1 (unat sz), Fclose (next_stream w),
                   Free (allocator w sz)]\<rparr>)"
  using assms be_u32_of_be_bytes [of n] be_u32_of_be_bytes [of r] be_u32_of_be_bytes [of c]
    be_u32_of_be_bytes [of MAGIC_NUMBER_IMAGES]
  by (simp add: image_file_def be_bytes_explicit mnist_load_images_def fopen_ok fread_u32_ok
      fread_buf_short Let_def is_big_endian_host load_u32_swapped malloc_def fclose_def free_def
      store_bytes_def fun_eq_iff)

lemma image_size_exact:
  assumes "unat n * unat r * unat c < 2 ^ 31"
  shows "unat (scast (n * r * c :: u32) :: size_t) = unat n * unat r * unat c"
proof -
  let ?k = "unat n * unat r * unat c"
  have "n * r * c = (of_nat ?k :: u32)" by simp
  moreover have "(scast (of_nat ?k :: c_int) :: ptr) = of_nat ?k"
    using assms by (rule scast_of_nat_small)
  ultimately have "(scast (n * r * c) :: size_t) = of_nat ?k" by (simp only:)
  moreover have "?k < 2 ^ 64" using assms by (rule less_trans) simp
  ultimately show ?thesis by (simp only: unat_of_nat64)
qed

text \<open>
  When the declared dimensions and their product are below \<open>2 ^ 31\<close> and the payload is
  complete, the size is exact and the set returned satisfies the data model.
\<close>

lemma load_images_valid_file:
  assumes f: "files w path = Some (image_file n r c payload)"
    and fits: "unat n * unat r * unat c < 2 ^ 31"
    and dims: "unat n < 2 ^ 31" "unat r < 2 ^ 31" "unat c < 2 ^ 31"
    and full: "unat n * unat r * unat c \<le> length payload"
    and alloc: "allocator w (scast (n * r * c)) \<noteq> 0"
  shows "case mnist_load_images (Some path) w of
           (images, w') \<Rightarrow>
             images = \<lparr>mnist_images.count = n, mnist_images.rows = r, mnist_images.columns = c,
                        mnist_images.data = allocator w (scast (n * r * c)),
                        mnist_images.valid = 1\<rparr>
             \<and> blocks w' (mnist_images.data images) = Some (unat n * unat r * unat c)
             \<and> images_ok (heap w') images (take (unat n * unat r * unat c) payload)"
proof -
  let ?k = "unat n * unat r * unat c"
  let ?sz = "scast (n * r * c) :: size_t"
  have sz: "unat ?sz = ?k" using fits by (rule image_size_exact)
  then have le: "unat ?sz \<le> length payload" using full by simp
  have run: "mnist_load_images (Some path) w =
     (\<lparr>mnist_images.count = n, mnist_images.rows = r, mnist_images.columns = c,
       mnist_images.data = allocator w ?sz, mnist_images.valid = 1\<rparr>,
      w\<lparr>streams := (streams w)(next_stream w := None),
        next_stream := Suc (next_stream w),
        heap := store_bytes (allocator w ?sz) (take (unat ?sz) payload) (heap w),
        blocks := (blocks w)(allocator w ?sz \<mapsto> unat ?sz),
        trace := trace w @ [Fopen path, Fread (next_stream w) 4 1, Fread (next_stream w) 4 1,
                   Fread (next_stream w) 4 1, Fread (next_stream w) 4 1,
                   Malloc ?sz, Fread (next_stream w) 1 (unat ?sz), Fclose (next_stream w)]\<rparr>)"
    using f refl alloc le by (rule load_images_file)
  have len: "length (take ?k payload) = ?k" using full by simp
  have "length (take ?k payload) \<le> 2 ^ 64" using fits by (simp add: len)
  then have hold: "holds (store_bytes (allocator w ?sz) (take ?k payload) (heap w))
                     (allocator w ?sz) (take ?k payload)"
    by (rule holds_store_bytes)
  note s = sint_small [OF dims(1)] sint_small [OF dims(2)] sint_small [OF dims(3)]
  have prod: "int ?k = sint n * sint r * sint c"
    by (simp add: s)
  show ?thesis
    using hold prod fits full
    by (simp add: run sz images_ok_def s)
qed

end
